theory Spec2Isabelle
  imports Complex_Main "HOL-Library.Word" "HOL-Library.AList" "HOL-Library.Sublist"
begin

section \<open>JavaScript strings and the platform's UTF-8 encoder\<close>

text \<open>
  A JavaScript string is a sequence of UTF-16 code units: \<open>str.length\<close> counts code
  units and \<open>str[i]\<close> is the one-unit string at index \<open>i\<close>. A character outside the
  Basic Multilingual Plane is a pair of units (a high surrogate followed by a low one).
\<close>

type_synonym jschar = "16 word"
type_synonym jsstring = "jschar list"

definition js :: "string \<Rightarrow> jsstring" where
  \<comment> \<open>an ASCII literal of the source as a JavaScript string\<close>
  "js s = map (\<lambda>c. word_of_nat (of_char c)) s"

definition is_high_surrogate :: "jschar \<Rightarrow> bool" where
  "is_high_surrogate u \<longleftrightarrow> 0xD800 \<le> u \<and> u \<le> 0xDBFF"

definition is_low_surrogate :: "jschar \<Rightarrow> bool" where
  "is_low_surrogate u \<longleftrightarrow> 0xDC00 \<le> u \<and> u \<le> 0xDFFF"

definition scalar_of_unit :: "jschar \<Rightarrow> nat" where
  \<comment> \<open>a unit that is not part of a pair; a lone surrogate becomes U+FFFD\<close>
  "scalar_of_unit u =
     (if is_high_surrogate u \<or> is_low_surrogate u then 0xFFFD else unat u)"

text \<open>
  \<open>TextEncoder.encode\<close> (WHATWG Encoding): the string is read as code points, a
  surrogate pair as one supplementary code point and a lone surrogate as U+FFFD, and each
  code point is written in 1 to 4 bytes.
\<close>

fun code_points :: "jsstring \<Rightarrow> nat list" where
  "code_points [] = []"
| "code_points [u] = [scalar_of_unit u]"
| "code_points (u # v # rest) =
     (if is_high_surrogate u \<and> is_low_surrogate v
      then (0x10000 + (unat u - 0xD800) * 0x400 + (unat v - 0xDC00)) # code_points rest
      else scalar_of_unit u # code_points (v # rest))"

definition utf8_bytes :: "nat \<Rightarrow> 8 word list" where
  "utf8_bytes cp =
     (if cp < 0x80 then [word_of_nat cp]
      else if cp < 0x800 then
        [word_of_nat (0xC0 + cp div 0x40), word_of_nat (0x80 + cp mod 0x40)]
      else if cp < 0x10000 then
        [word_of_nat (0xE0 + cp div 0x1000), word_of_nat (0x80 + (cp div 0x40) mod 0x40),
         word_of_nat (0x80 + cp mod 0x40)]
      else
        [word_of_nat (0xF0 + cp div 0x40000), word_of_nat (0x80 + (cp div 0x1000) mod 0x40),
         word_of_nat (0x80 + (cp div 0x40) mod 0x40), word_of_nat (0x80 + cp mod 0x40)])"

definition encode :: "jsstring \<Rightarrow> 8 word list" where
  "encode s = concat (map utf8_bytes (code_points s))"


section \<open>utils/chunk.ts\<close>

text \<open>
  \<open>splitByBytes\<close>: the loop over \<open>i < str.length\<close>, with the chunks pushed so far, the
  current chunk and the units still to read. \<open>maxBytes\<close> is a JavaScript number; the
  model takes integers.
\<close>

fun splitByBytes_loop :: "int \<Rightarrow> jsstring list \<Rightarrow> jsstring \<Rightarrow> jsstring \<Rightarrow> jsstring list" where
  "splitByBytes_loop maxBytes chunks currentChunk [] =
     (if length currentChunk > 0 then chunks @ [currentChunk] else chunks)"
| "splitByBytes_loop maxBytes chunks currentChunk (char # rest) =
     (let testChunk = currentChunk @ [char];
          testBytes = encode testChunk
      in if int (length testBytes) > maxBytes \<and> length currentChunk > 0
         then splitByBytes_loop maxBytes (chunks @ [currentChunk]) [char] rest
         else splitByBytes_loop maxBytes chunks testChunk rest)"

definition splitByBytes :: "jsstring \<Rightarrow> int \<Rightarrow> jsstring list" where
  "splitByBytes str maxBytes =
     (if str = [] then [] else splitByBytes_loop maxBytes [] [] str)"

definition joinChunks :: "jsstring list \<Rightarrow> jsstring" where
  "joinChunks chunks = concat chunks"

fun splitByBytesLegacy_loop :: "int \<Rightarrow> jsstring list \<Rightarrow> jsstring \<Rightarrow> jsstring \<Rightarrow> jsstring list" where
  "splitByBytesLegacy_loop maxBytes chunks currentChunk [] =
     (if length currentChunk > 0 then chunks @ [currentChunk] else chunks)"
| "splitByBytesLegacy_loop maxBytes chunks currentChunk (char # rest) =
     (let testChunk = currentChunk @ [char];
          estimatedBytes = length testChunk * 3
      in if int estimatedBytes > maxBytes \<and> length currentChunk > 0
         then splitByBytesLegacy_loop maxBytes (chunks @ [currentChunk]) [char] rest
         else splitByBytesLegacy_loop maxBytes chunks testChunk rest)"

definition splitByBytesLegacy :: "jsstring \<Rightarrow> int \<Rightarrow> jsstring list" where
  "splitByBytesLegacy str maxBytes =
     (if str = [] then [] else splitByBytesLegacy_loop maxBytes [] [] str)"

definition splitStringByBytes :: "bool \<Rightarrow> jsstring \<Rightarrow> int \<Rightarrow> jsstring list" where
  \<comment> \<open>\<open>precise\<close>: \<open>TextEncoder\<close> and \<open>window\<close> are defined and the encoder does not throw\<close>
  "splitStringByBytes precise str maxBytes =
     (if precise then splitByBytes str maxBytes else splitByBytesLegacy str maxBytes)"


section \<open>AsyncStorage: the key-value store\<close>

text \<open>
  The store maps keys to string values. Every call is asynchronous and may reject; which
  calls reject is given by a predicate on calls. A rejected call leaves the store as it
  was. The keys of the source are ASCII literals, kept as HOL strings.
\<close>

type_synonym kv_store = "(string \<times> jsstring) list"

datatype kv_call =
  GetItem string | SetItem string | RemoveItem string | MultiRemove | GetAllKeys

type_synonym faults = "kv_call \<Rightarrow> bool"

datatype js_error = StorageError kv_call | Error string

text \<open>
  An asynchronous computation over a state \<open>'s\<close>: it ends with a value (\<open>Inr\<close>) or
  rejects with an error (\<open>Inl\<close>), and in both cases leaves a state behind.
\<close>

type_synonym ('s, 'a) io = "'s \<Rightarrow> (js_error + 'a) \<times> 's"

definition io_return :: "'a \<Rightarrow> ('s, 'a) io" where
  "io_return a s = (Inr a, s)"

definition io_throw :: "js_error \<Rightarrow> ('s, 'a) io" where
  "io_throw e s = (Inl e, s)"

definition io_bind :: "('s, 'a) io \<Rightarrow> ('a \<Rightarrow> ('s, 'b) io) \<Rightarrow> ('s, 'b) io" where
  \<comment> \<open>\<open>const a = await m; k a\<close>\<close>
  "io_bind m k s = (case m s of (Inl e, s') \<Rightarrow> (Inl e, s') | (Inr a, s') \<Rightarrow> k a s')"

definition io_catch :: "('s, 'a) io \<Rightarrow> (js_error \<Rightarrow> ('s, 'a) io) \<Rightarrow> ('s, 'a) io" where
  \<comment> \<open>\<open>try { m } catch (e) { h e }\<close>\<close>
  "io_catch m h s = (case m s of (Inl e, s') \<Rightarrow> h e s' | (Inr a, s') \<Rightarrow> (Inr a, s'))"

definition getItem :: "faults \<Rightarrow> string \<Rightarrow> (kv_store, jsstring option) io" where
  "getItem f k st =
     (if f (GetItem k) then (Inl (StorageError (GetItem k)), st) else (Inr (map_of st k), st))"

definition setItem :: "faults \<Rightarrow> string \<Rightarrow> jsstring \<Rightarrow> (kv_store, unit) io" where
  "setItem f k v st =
     (if f (SetItem k) then (Inl (StorageError (SetItem k)), st)
      else (Inr (), AList.update k v st))"

definition removeItem :: "faults \<Rightarrow> string \<Rightarrow> (kv_store, unit) io" where
  "removeItem f k st =
     (if f (RemoveItem k) then (Inl (StorageError (RemoveItem k)), st)
      else (Inr (), AList.delete k st))"

definition multiRemove :: "faults \<Rightarrow> string list \<Rightarrow> (kv_store, unit) io" where
  "multiRemove f ks st =
     (if f MultiRemove then (Inl (StorageError MultiRemove), st)
      else (Inr (), filter (\<lambda>p. fst p \<notin> set ks) st))"

definition getAllKeys :: "faults \<Rightarrow> (kv_store, string list) io" where
  "getAllKeys f st =
     (if f GetAllKeys then (Inl (StorageError GetAllKeys), st) else (Inr (map fst st), st))"

definition safeStorageOperation :: "('s, 'a) io \<Rightarrow> 'a \<Rightarrow> ('s, 'a) io" where
  "safeStorageOperation operation fallback = io_catch operation (\<lambda>error. io_return fallback)"


section \<open>contexts/StorageContext.tsx: keys\<close>

definition PROJECTS :: string where "PROJECTS = ''SIEMENS_PROJECTS''"
definition FAVORITE_PROJECTS :: string where "FAVORITE_PROJECTS = ''SIEMENS_FAV_PROJECTS''"
definition FAVORITE_BUILDINGS :: string where "FAVORITE_BUILDINGS = ''SIEMENS_FAV_BUILDINGS''"
definition FAVORITE_ZONES :: string where "FAVORITE_ZONES = ''SIEMENS_FAV_ZONES''"
definition FAVORITE_SHUTTERS :: string where "FAVORITE_SHUTTERS = ''SIEMENS_FAV_SHUTTERS''"
definition FAVORITE_NOTES :: string where "FAVORITE_NOTES = ''SIEMENS_FAV_NOTES''"
definition QUICK_CALC_HISTORY :: string where "QUICK_CALC_HISTORY = ''SIEMENS_CALC_HISTORY''"
definition NOTES :: string where "NOTES = ''SIEMENS_NOTES''"
definition NOTES_TMP :: string where "NOTES_TMP = ''SIEMENS_NOTES_TMP''"
definition NOTES_META :: string where "NOTES_META = ''SIEMENS_NOTES_META''"

function show_nat :: "nat \<Rightarrow> string" where
  \<comment> \<open>the decimal digits of an index, as the template literal writes it\<close>
  "show_nat n =
     (if n < 10 then [''0123456789'' ! n]
      else show_nat (n div 10) @ [''0123456789'' ! (n mod 10)])"
  by pat_completeness auto
termination
  by (relation "measure id") auto

declare show_nat.simps [simp del]

definition chunkPrefix :: string where
  "chunkPrefix = NOTES @ ''_chunk_''"

definition chunkKey :: "nat \<Rightarrow> string" where
  "chunkKey i = chunkPrefix @ show_nat i"

definition startsWith :: "'a list \<Rightarrow> 'a list \<Rightarrow> bool" where
  "startsWith key p \<longleftrightarrow> take (length p) key = p"

definition maxChunkSize :: int where
  "maxChunkSize = 500 * 1024"


section \<open>The data model\<close>

text \<open>
  The entity types come from \<open>@/types\<close>; the records keep the fields that the storage
  provider reads or writes. Dates are milliseconds since the epoch.
\<close>

record Shutter =
  s_id :: jsstring
  s_zoneId :: jsstring
  s_name :: jsstring
  s_remarks :: "jsstring option"
  s_createdAt :: int
  s_updatedAt :: int

record FunctionalZone =
  z_id :: jsstring
  z_buildingId :: jsstring
  z_name :: jsstring
  z_createdAt :: int
  shutters :: "Shutter list"

record Building =
  b_id :: jsstring
  b_projectId :: jsstring
  b_name :: jsstring
  b_createdAt :: int
  functionalZones :: "FunctionalZone list"

record Project =
  p_id :: jsstring
  p_name :: jsstring
  p_city :: "jsstring option"
  p_createdAt :: int
  p_updatedAt :: int
  buildings :: "Building list"

record SearchResult =
  r_shutter :: Shutter
  r_zone :: FunctionalZone
  r_building :: Building
  r_project :: Project

record Note =
  n_id :: jsstring
  n_title :: jsstring
  n_content :: jsstring
  n_images :: "jsstring list option"
  n_createdAt :: int
  n_updatedAt :: int

text \<open>\<open>Partial<Shutter>\<close>, \<open>Partial<Project>\<close> and \<open>Partial<Note>\<close>: the fields that are present.\<close>

record shutter_updates =
  su_id :: "jsstring option"
  su_zoneId :: "jsstring option"
  su_name :: "jsstring option"
  su_remarks :: "jsstring option"
  su_createdAt :: "int option"










datatype status = Compliant | Acceptable | NonCompliant

record quickCalcData =
  q_referenceFlow :: real
  q_measuredFlow :: real
  q_deviation :: real
  q_status :: status
  q_color :: jsstring

record QuickCalcHistoryItem = quickCalcData +
  q_id :: jsstring
  q_timestamp :: int


section \<open>The platform and the state of the provider\<close>

text \<open>
  What the provider takes from the platform. \<open>JSON.stringify\<close>, \<open>JSON.parse\<close>,
  \<open>Date.now\<close>, \<open>Math.random\<close>, \<open>String.prototype.toLowerCase\<close> and the file system
  behind the image store are not part of the repository's code; they are parameters.
\<close>

datatype 'r parsed =
  SyntaxError
  | Array "'r list"
  | NonArray "'r list option"
  \<comment> \<open>\<open>JSON.parse\<close> threw; gave an array; gave another value, with the items of its
      spread \<open>...value\<close> when it is iterable and \<open>None\<close> when the spread throws\<close>

record 'r platform =
  faults :: faults
  precise :: bool
  mobile :: bool
  now :: int
  generateUniqueId :: jsstring
  toLowerCase :: "jsstring \<Rightarrow> jsstring"
  persistImagesIfNeeded :: "jsstring list option \<Rightarrow> js_error + jsstring list option"
  stringify_notes :: "Note list \<Rightarrow> jsstring"
  stringify_meta :: "nat \<Rightarrow> int \<Rightarrow> jsstring"
  stringify_projects :: "Project list \<Rightarrow> jsstring"
  stringify_strings :: "jsstring list \<Rightarrow> jsstring"
  stringify_history :: "QuickCalcHistoryItem list \<Rightarrow> jsstring"
  parse_notes :: "jsstring \<Rightarrow> 'r parsed"
  parse_totalChunks :: "jsstring \<Rightarrow> nat option"
  process_note :: "'r \<Rightarrow> js_error + Note"

text \<open>
  \<open>faults\<close>: the AsyncStorage calls that reject. \<open>precise\<close>: \<open>TextEncoder\<close> is there.
  \<open>mobile\<close>: \<open>Platform.OS\<close> is not \<open>'web'\<close>. \<open>now\<close>: the clock.
  \<open>persistImagesIfNeeded\<close>: the image store of \<open>utils/imageStorage\<close>, whose files are
  not part of the state modelled here.
  \<open>stringify_meta n t\<close> is \<open>JSON.stringify({totalChunks: n, timestamp: t, version: '2.0'})\<close>.
  \<open>parse_totalChunks s\<close> is \<open>JSON.parse(s).totalChunks\<close> as the bound of the loop
  \<open>for (i = 0; i < meta.totalChunks; i++)\<close>: \<open>None\<close> when parsing or reading the
  property throws, otherwise the number of iterations. \<open>process_note\<close> is the
  per-item post-processing of a loaded note (dates rebuilt with \<open>new Date\<close>, \<open>images\<close>
  defaulted to \<open>[]\<close>).
\<close>

text \<open>
  The state: the store, the React state of the provider, and the ref that an effect sets
  to \<open>projects\<close> after each render in which \<open>projects\<close> changed.
\<close>

record world =
  storage :: kv_store
  projects :: "Project list"
  projectsRef :: "Project list"
  favoriteProjects :: "jsstring list"
  favoriteBuildings :: "jsstring list"
  favoriteZones :: "jsstring list"
  favoriteShutters :: "jsstring list"
  favoriteNotes :: "jsstring list"
  quickCalcHistory :: "QuickCalcHistoryItem list"
  "notes" :: "Note list"

definition on_storage :: "(kv_store, 'a) io \<Rightarrow> (world, 'a) io" where
  "on_storage m w = (case m (storage w) of (r, st') \<Rightarrow> (r, w\<lparr>storage := st'\<rparr>))"

definition setNotes :: "Note list \<Rightarrow> (world, unit) io" where
  "setNotes ns w = (Inr (), w\<lparr>notes := ns\<rparr>)"

definition setProjects :: "Project list \<Rightarrow> (world, unit) io" where
  "setProjects ps w = (Inr (), w\<lparr>projects := ps\<rparr>)"

definition rerender :: "world \<Rightarrow> world" where
  \<comment> \<open>\<open>useEffect(() => { projectsRef.current = projects }, [projects])\<close>\<close>
  "rerender w = w\<lparr>projectsRef := projects w\<rparr>"


section \<open>contexts/StorageContext.tsx: saving the notes\<close>

fun sanitize_loop :: "'r platform \<Rightarrow> Note list \<Rightarrow> js_error + Note list" where
  "sanitize_loop env [] = Inr []"
| "sanitize_loop env (note # rest) =
     (if (case n_images note of None \<Rightarrow> False
          | Some images \<Rightarrow> list_ex (\<lambda>img. startsWith img (js ''data:image/'')) images)
      then (case persistImagesIfNeeded env (n_images note) of
              Inl e \<Rightarrow> Inl e
            | Inr persistedImages \<Rightarrow>
                (case sanitize_loop env rest of
                   Inl e \<Rightarrow> Inl e
                 | Inr sanitizedNotes \<Rightarrow> Inr (note\<lparr>n_images := persistedImages\<rparr> # sanitizedNotes)))
      else (case sanitize_loop env rest of
              Inl e \<Rightarrow> Inl e
            | Inr sanitizedNotes \<Rightarrow> Inr (note # sanitizedNotes)))"

definition sanitizeNotesImages :: "'r platform \<Rightarrow> Note list \<Rightarrow> js_error + Note list" where
  "sanitizeNotesImages env ns = (if \<not> mobile env then Inr ns else sanitize_loop env ns)"

fun write_chunks :: "faults \<Rightarrow> nat \<Rightarrow> jsstring list \<Rightarrow> (kv_store, unit) io" where
  \<comment> \<open>\<open>for (let i = 0; i < chunks.length; i++) await setItem(`${NOTES}_chunk_${i}`, chunks[i])\<close>,
      from index \<open>i\<close> on\<close>
  "write_chunks f i [] st = (Inr (), st)"
| "write_chunks f i (c # cs) st =
     (case setItem f (chunkKey i) c st of
        (Inl e, st') \<Rightarrow> (Inl e, st')
      | (Inr u, st') \<Rightarrow> write_chunks f (Suc i) cs st')"

definition saveNotesWithUTF8Chunks :: "'r platform \<Rightarrow> jsstring \<Rightarrow> (kv_store, unit) io" where
  "saveNotesWithUTF8Chunks env dataString =
     (let chunks = splitStringByBytes (precise env) dataString maxChunkSize;
          metadata = stringify_meta env (length chunks) (now env)
      in io_bind (setItem (faults env) NOTES_META metadata) (\<lambda>_.
         io_bind (write_chunks (faults env) 0 chunks) (\<lambda>_.
         removeItem (faults env) NOTES)))"

definition cleanupOldChunks :: "faults \<Rightarrow> (kv_store, unit) io" where
  "cleanupOldChunks f =
     io_catch
       (io_bind (getAllKeys f) (\<lambda>allKeys.
          let chunkKeys = filter (\<lambda>key. startsWith key chunkPrefix) allKeys
          in if length chunkKeys > 0
             then io_bind (multiRemove f chunkKeys) (\<lambda>_. removeItem f NOTES_META)
             else io_return ()))
       (\<lambda>error. io_return ())"

definition saveNotes :: "'r platform \<Rightarrow> Note list \<Rightarrow> (world, unit) io" where
  \<comment> \<open>the task that \<open>saveNotes\<close> hands to \<open>enqueue\<close>\<close>
  "saveNotes env newNotes =
     io_catch
       (case sanitizeNotesImages env newNotes of
          Inl e \<Rightarrow> io_throw e
        | Inr sanitizedNotes \<Rightarrow>
            (let dataString = stringify_notes env sanitizedNotes
             in io_bind (on_storage (setItem (faults env) NOTES_TMP dataString)) (\<lambda>_.
                io_bind (if int (length dataString) > 500 * 1024
                         then on_storage (saveNotesWithUTF8Chunks env dataString)
                         else on_storage (setItem (faults env) NOTES dataString)) (\<lambda>_.
                io_bind (on_storage (removeItem (faults env) NOTES_TMP)) (\<lambda>_.
                io_bind (on_storage (cleanupOldChunks (faults env))) (\<lambda>_.
                setNotes sanitizedNotes))))))
       (\<lambda>error.
          io_bind (io_catch (on_storage (removeItem (faults env) NOTES_TMP))
                            (\<lambda>cleanupError. io_return ()))
                  (\<lambda>_. io_throw error))"


section \<open>contexts/StorageContext.tsx: loading the notes\<close>

definition truthy :: "jsstring option \<Rightarrow> bool" where
  \<comment> \<open>\<open>if (data)\<close> on \<open>string | null\<close>: neither \<open>null\<close> nor the empty string\<close>
  "truthy data \<longleftrightarrow> (case data of None \<Rightarrow> False | Some s \<Rightarrow> s \<noteq> [])"

fun read_inline_chunks ::
  "'r platform \<Rightarrow> nat \<Rightarrow> nat \<Rightarrow> 'r list \<Rightarrow> (kv_store, 'r list) io" where
  \<comment> \<open>the loop of \<open>initializeStorage\<close> over \<open>i < meta.totalChunks\<close>: \<open>n\<close> iterations are
      left, \<open>i\<close> is the index, \<open>allChunks\<close> the items pushed so far\<close>
  "read_inline_chunks env 0 i allChunks st = (Inr allChunks, st)"
| "read_inline_chunks env (Suc n) i allChunks st =
     (case getItem (faults env) (chunkKey i) st of
        (Inl e, st') \<Rightarrow> (Inl e, st')
      | (Inr chunkData, st') \<Rightarrow>
          (if truthy chunkData then
             (case parse_notes env (the chunkData) of
                SyntaxError \<Rightarrow> (Inl (Error ''SyntaxError''), st')
              | Array chunk \<Rightarrow> read_inline_chunks env n (Suc i) (allChunks @ chunk) st'
              | NonArray None \<Rightarrow> (Inl (Error ''TypeError''), st')
              | NonArray (Some chunk) \<Rightarrow> read_inline_chunks env n (Suc i) (allChunks @ chunk) st')
           else read_inline_chunks env n (Suc i) allChunks st'))"

definition load_inline_chunks :: "'r platform \<Rightarrow> (kv_store, 'r list) io" where
  \<comment> \<open>the inner \<open>try\<close> of \<open>initializeStorage\<close>, entered when the primary value does not parse\<close>
  "load_inline_chunks env =
     io_catch
       (io_bind (getItem (faults env) (NOTES @ ''_chunks_meta'')) (\<lambda>chunksMetaData.
          if truthy chunksMetaData then
            (case parse_totalChunks env (the chunksMetaData) of
               None \<Rightarrow> io_throw (Error ''SyntaxError'')
             | Some totalChunks \<Rightarrow> read_inline_chunks env totalChunks 0 [])
          else io_return []))
       (\<lambda>chunkError. io_return [])"

fun process_notes :: "('r \<Rightarrow> js_error + Note) \<Rightarrow> 'r list \<Rightarrow> js_error + Note list" where
  \<comment> \<open>\<open>loadedNotes.map(...)\<close>, which stops at the first item whose processing throws\<close>
  "process_notes p [] = Inr []"
| "process_notes p (x # xs) =
     (case p x of
        Inl e \<Rightarrow> Inl e
      | Inr y \<Rightarrow> (case process_notes p xs of Inl e \<Rightarrow> Inl e | Inr ys \<Rightarrow> Inr (y # ys)))"

definition initializeStorage_notes :: "'r platform \<Rightarrow> (world, unit) io" where
  \<comment> \<open>the part of \<open>initializeStorage\<close> under \<open>// Charger les notes\<close>\<close>
  "initializeStorage_notes env =
     io_bind (on_storage (safeStorageOperation (getItem (faults env) NOTES) None)) (\<lambda>notesData.
       io_catch
         (io_bind
            (if truthy notesData \<and> notesData \<noteq> Some (js ''undefined'')
                \<and> notesData \<noteq> Some (js ''null'')
             then (case parse_notes env (the notesData) of
                     Array parsedNotes \<Rightarrow> io_return parsedNotes
                   | NonArray v \<Rightarrow> io_return []
                   | SyntaxError \<Rightarrow> on_storage (load_inline_chunks env))
             else io_return [])
            (\<lambda>loadedNotes.
               case process_notes (process_note env) loadedNotes of
                 Inl e \<Rightarrow> io_throw e
               | Inr processedNotes \<Rightarrow> setNotes processedNotes))
         (\<lambda>error. setNotes []))"

fun read_chunks :: "faults \<Rightarrow> nat \<Rightarrow> nat \<Rightarrow> jsstring list \<Rightarrow> (kv_store, jsstring list option) io" where
  \<comment> \<open>the loop of \<open>loadNotesFromChunks\<close>; \<open>Inr None\<close> is its \<open>return null\<close>\<close>
  "read_chunks f 0 i chunks st = (Inr (Some chunks), st)"
| "read_chunks f (Suc n) i chunks st =
     (case getItem f (chunkKey i) st of
        (Inl e, st') \<Rightarrow> (Inl e, st')
      | (Inr chunk, st') \<Rightarrow>
          (if \<not> truthy chunk then (Inr None, st')
           else read_chunks f n (Suc i) (chunks @ [the chunk]) st'))"

definition loadNotesFromChunks :: "'r platform \<Rightarrow> (kv_store, jsstring option) io" where
  "loadNotesFromChunks env =
     io_catch
       (io_bind (getItem (faults env) NOTES_META) (\<lambda>metadataString.
          if \<not> truthy metadataString then io_return None
          else (case parse_totalChunks env (the metadataString) of
                  None \<Rightarrow> io_throw (Error ''SyntaxError'')
                | Some totalChunks \<Rightarrow>
                    io_bind (read_chunks (faults env) totalChunks 0 []) (\<lambda>chunks.
                      io_return (map_option joinChunks chunks)))))
       (\<lambda>error. io_return None)"


section \<open>contexts/StorageContext.tsx: the write queue and the projects\<close>

text \<open>
  \<open>enqueue\<close> chains a task after the tail of one promise chain and makes the chain's
  new tail ignore the task's failure. The queue is the list of tasks not yet run; running
  it takes them first in, first out, each from the state the one before left. React
  renders again after a task has set state, and the effect then refreshes the ref.
\<close>

type_synonym task = "(world, unit) io"

definition enqueue :: "task \<Rightarrow> task list \<Rightarrow> task list" where
  "enqueue fn saveQueue = saveQueue @ [fn]"

fun run_queue :: "task list \<Rightarrow> world \<Rightarrow> world" where
  "run_queue [] w = w"
| "run_queue (fn # saveQueue) w = run_queue saveQueue (rerender (snd (fn w)))"

definition saveProjects :: "'r platform \<Rightarrow> Project list \<Rightarrow> task" where
  \<comment> \<open>the task that \<open>saveProjects\<close> hands to \<open>enqueue\<close>; the service-worker message
      of the web platform has its own \<open>try\<close> and changes nothing here\<close>
  "saveProjects env newProjects =
     io_catch
       (io_bind (on_storage (setItem (faults env) PROJECTS (stringify_projects env newProjects)))
          (\<lambda>_. setProjects newProjects))
       (\<lambda>error. io_throw error)"

text \<open>
  A caller that awaits its task while no other task is pending gets the task's own outcome:
  the operations below are written for that caller. The callers of the write-ordering
  section are the ones that do not wait.
\<close>

definition setFavoriteProjects :: "'r platform \<Rightarrow> jsstring list \<Rightarrow> (world, unit) io" where
  "setFavoriteProjects env favorites =
     io_bind (safeStorageOperation
                (on_storage (setItem (faults env) FAVORITE_PROJECTS (stringify_strings env favorites))) ())
       (\<lambda>_ w. (Inr (), w\<lparr>favoriteProjects := favorites\<rparr>))"

definition setFavoriteBuildings :: "'r platform \<Rightarrow> jsstring list \<Rightarrow> (world, unit) io" where
  "setFavoriteBuildings env favorites =
     io_bind (safeStorageOperation
                (on_storage (setItem (faults env) FAVORITE_BUILDINGS (stringify_strings env favorites))) ())
       (\<lambda>_ w. (Inr (), w\<lparr>favoriteBuildings := favorites\<rparr>))"

definition setFavoriteZones :: "'r platform \<Rightarrow> jsstring list \<Rightarrow> (world, unit) io" where
  "setFavoriteZones env favorites =
     io_bind (safeStorageOperation
                (on_storage (setItem (faults env) FAVORITE_ZONES (stringify_strings env favorites))) ())
       (\<lambda>_ w. (Inr (), w\<lparr>favoriteZones := favorites\<rparr>))"

definition setFavoriteShutters :: "'r platform \<Rightarrow> jsstring list \<Rightarrow> (world, unit) io" where
  "setFavoriteShutters env favorites =
     io_bind (safeStorageOperation
                (on_storage (setItem (faults env) FAVORITE_SHUTTERS (stringify_strings env favorites))) ())
       (\<lambda>_ w. (Inr (), w\<lparr>favoriteShutters := favorites\<rparr>))"

definition setFavoriteNotes :: "'r platform \<Rightarrow> jsstring list \<Rightarrow> (world, unit) io" where
  "setFavoriteNotes env favorites =
     io_bind (safeStorageOperation
                (on_storage (setItem (faults env) FAVORITE_NOTES (stringify_strings env favorites))) ())
       (\<lambda>_ w. (Inr (), w\<lparr>favoriteNotes := favorites\<rparr>))"

fun findIndex :: "('a \<Rightarrow> bool) \<Rightarrow> 'a list \<Rightarrow> nat option" where
  \<comment> \<open>\<open>Array.prototype.findIndex\<close>, with \<open>None\<close> for \<open>-1\<close>\<close>
  "findIndex P [] = None"
| "findIndex P (x # xs) = (if P x then Some 0 else map_option Suc (findIndex P xs))"

definition includes_id :: "jsstring list \<Rightarrow> jsstring \<Rightarrow> bool" where
  \<comment> \<open>\<open>ids.includes(id)\<close>\<close>
  "includes_id ids i \<longleftrightarrow> i \<in> set ids"





fun deleteBuilding_loop :: "int \<Rightarrow> jsstring \<Rightarrow> Project list \<Rightarrow> Project list option" where
  \<comment> \<open>the loop over the projects, up to its \<open>break\<close>; \<open>None\<close> when \<open>found\<close> stays false\<close>
  "deleteBuilding_loop t buildingId [] = None"
| "deleteBuilding_loop t buildingId (p # ps) =
     (case findIndex (\<lambda>b. b_id b = buildingId) (buildings p) of
        Some buildingIndex \<Rightarrow>
          Some (p\<lparr>buildings := filter (\<lambda>b. b_id b \<noteq> buildingId) (buildings p),
                   p_updatedAt := t\<rparr> # ps)
      | None \<Rightarrow> map_option ((#) p) (deleteBuilding_loop t buildingId ps))"

definition deleteBuilding :: "'r platform \<Rightarrow> jsstring \<Rightarrow> (world, bool) io" where
  "deleteBuilding env buildingId w =
     (case deleteBuilding_loop (now env) buildingId (projectsRef w) of
        None \<Rightarrow> (Inr False, w)
      | Some newProjects \<Rightarrow>
          (let newFavoriteBuildings = filter (\<lambda>fId. fId \<noteq> buildingId) (favoriteBuildings w)
           in io_bind (setFavoriteBuildings env newFavoriteBuildings) (\<lambda>_.
              io_bind (saveProjects env newProjects) (\<lambda>_. io_return True)) w))"

definition deleteBuildings :: "'r platform \<Rightarrow> jsstring list \<Rightarrow> (world, bool) io" where
  "deleteBuildings env ids w =
     io_catch
       (let newProjects =
              map (\<lambda>project. project\<lparr>buildings :=
                     filter (\<lambda>b. \<not> includes_id ids (b_id b)) (buildings project)\<rparr>) (projects w);
            newFavoriteBuildings = filter (\<lambda>fId. \<not> includes_id ids fId) (favoriteBuildings w)
        in io_bind (setFavoriteBuildings env newFavoriteBuildings) (\<lambda>_.
           io_bind (saveProjects env newProjects) (\<lambda>_. io_return True)))
       (\<lambda>error. io_return False) w"

definition deleteZones :: "'r platform \<Rightarrow> jsstring list \<Rightarrow> (world, bool) io" where
  "deleteZones env ids w =
     io_catch
       (let newProjects =
              map (\<lambda>project. project\<lparr>buildings :=
                     map (\<lambda>building. building\<lparr>functionalZones :=
                            filter (\<lambda>z. \<not> includes_id ids (z_id z)) (functionalZones building)\<rparr>)
                         (buildings project)\<rparr>) (projects w);
            newFavoriteZones = filter (\<lambda>fId. \<not> includes_id ids fId) (favoriteZones w)
        in io_bind (setFavoriteZones env newFavoriteZones) (\<lambda>_.
           io_bind (saveProjects env newProjects) (\<lambda>_. io_return True)))
       (\<lambda>error. io_return False) w"

definition deleteShuttersBatch :: "'r platform \<Rightarrow> jsstring list \<Rightarrow> (world, bool) io" where
  "deleteShuttersBatch env ids w =
     io_catch
       (let newProjects =
              map (\<lambda>project. project\<lparr>buildings :=
                     map (\<lambda>building. building\<lparr>functionalZones :=
                            map (\<lambda>zone. zone\<lparr>shutters :=
                                   filter (\<lambda>s. \<not> includes_id ids (s_id s)) (shutters zone)\<rparr>)
                                (functionalZones building)\<rparr>)
                         (buildings project)\<rparr>) (projects w);
            newFavoriteShutters = filter (\<lambda>fId. \<not> includes_id ids fId) (favoriteShutters w)
        in io_bind (setFavoriteShutters env newFavoriteShutters) (\<lambda>_.
           io_bind (saveProjects env newProjects) (\<lambda>_. io_return True)))
       (\<lambda>error. io_return False) w"

definition apply_shutter_updates :: "Shutter \<Rightarrow> shutter_updates \<Rightarrow> int \<Rightarrow> Shutter" where
  \<comment> \<open>\<open>{ ...shutter, ...updates, updatedAt: new Date() }\<close>\<close>
  "apply_shutter_updates s u t =
     \<lparr>s_id = (case su_id u of Some v \<Rightarrow> v | None \<Rightarrow> s_id s),
      s_zoneId = (case su_zoneId u of Some v \<Rightarrow> v | None \<Rightarrow> s_zoneId s),
      s_name = (case su_name u of Some v \<Rightarrow> v | None \<Rightarrow> s_name s),
      s_remarks = (case su_remarks u of Some v \<Rightarrow> Some v | None \<Rightarrow> s_remarks s),
      s_createdAt = (case su_createdAt u of Some v \<Rightarrow> v | None \<Rightarrow> s_createdAt s),
      s_updatedAt = t\<rparr>"

text \<open>
  The three loops of \<open>updateShutter\<close> over projects, buildings and zones: the first zone
  that holds the shutter gets it replaced, between the slices before and after its index.
\<close>

fun updateShutter_zones ::
  "int \<Rightarrow> jsstring \<Rightarrow> shutter_updates \<Rightarrow> FunctionalZone list
     \<Rightarrow> (FunctionalZone list \<times> Shutter) option" where
  "updateShutter_zones t shutterId updates [] = None"
| "updateShutter_zones t shutterId updates (z # zs) =
     (case findIndex (\<lambda>s. s_id s = shutterId) (shutters z) of
        Some shutterIndex \<Rightarrow>
          (let updatedShutter = apply_shutter_updates (shutters z ! shutterIndex) updates t
           in Some (z\<lparr>shutters := take shutterIndex (shutters z) @ [updatedShutter]
                                      @ drop (Suc shutterIndex) (shutters z)\<rparr> # zs,
                    updatedShutter))
      | None \<Rightarrow>
          map_option (\<lambda>(zs', s). (z # zs', s)) (updateShutter_zones t shutterId updates zs))"

fun updateShutter_buildings ::
  "int \<Rightarrow> jsstring \<Rightarrow> shutter_updates \<Rightarrow> Building list \<Rightarrow> (Building list \<times> Shutter) option" where
  "updateShutter_buildings t shutterId updates [] = None"
| "updateShutter_buildings t shutterId updates (b # bs) =
     (case updateShutter_zones t shutterId updates (functionalZones b) of
        Some (zs', s) \<Rightarrow> Some (b\<lparr>functionalZones := zs'\<rparr> # bs, s)
      | None \<Rightarrow>
          map_option (\<lambda>(bs', s). (b # bs', s)) (updateShutter_buildings t shutterId updates bs))"

fun updateShutter_projects ::
  "int \<Rightarrow> jsstring \<Rightarrow> shutter_updates \<Rightarrow> Project list \<Rightarrow> (Project list \<times> Shutter) option" where
  "updateShutter_projects t shutterId updates [] = None"
| "updateShutter_projects t shutterId updates (p # ps) =
     (case updateShutter_buildings t shutterId updates (buildings p) of
        Some (bs', s) \<Rightarrow> Some (p\<lparr>buildings := bs', p_updatedAt := t\<rparr> # ps, s)
      | None \<Rightarrow>
          map_option (\<lambda>(ps', s). (p # ps', s)) (updateShutter_projects t shutterId updates ps))"


definition updateShutter_call ::
  "'r platform \<Rightarrow> jsstring \<Rightarrow> shutter_updates \<Rightarrow> world \<Rightarrow> task list \<Rightarrow> task list" where
  \<comment> \<open>the part of a call of \<open>updateShutter\<close> that runs before it first awaits: the snapshot
      is built from the ref as it is now, and the save of that snapshot joins the queue\<close>
  "updateShutter_call env shutterId updates w saveQueue =
     (case updateShutter_projects (now env) shutterId updates (projectsRef w) of
        None \<Rightarrow> saveQueue
      | Some (newProjects, updatedShutter) \<Rightarrow> enqueue (saveProjects env newProjects) saveQueue)"























section \<open>contexts/StorageContext.tsx: the quick-calc history\<close>

definition addQuickCalcHistory :: "'r platform \<Rightarrow> quickCalcData \<Rightarrow> (world, unit) io" where
  "addQuickCalcHistory env item w =
     (let newItem = quickCalcData.extend item
                      \<lparr>q_id = generateUniqueId env, q_timestamp = now env\<rparr>;
          newHistory = newItem # quickCalcHistory w
      in io_bind (safeStorageOperation
                    (on_storage (setItem (faults env) QUICK_CALC_HISTORY
                                   (stringify_history env newHistory))) ())
           (\<lambda>_ w'. (Inr (), w'\<lparr>quickCalcHistory := newHistory\<rparr>)) w)"

text \<open>
  The other storage provider of the repository (second document of
  \<open>contexts/StorageContext.tsx\<close>, with module-level collections) keeps the history under
  its own key and truncates it.
\<close>

definition QUICK_CALC_HISTORY_KEY :: string where
  "QUICK_CALC_HISTORY_KEY = ''SIEMENS_QUICK_CALC_HISTORY''"

definition addQuickCalcHistory_alt :: "'r platform \<Rightarrow> quickCalcData \<Rightarrow> (world, unit) io" where
  "addQuickCalcHistory_alt env item w =
     (let newItem = quickCalcData.extend item
                      \<lparr>q_id = generateUniqueId env, q_timestamp = now env\<rparr>;
          w' = w\<lparr>quickCalcHistory := take 5 (newItem # quickCalcHistory w)\<rparr>
      in io_catch
           (on_storage (setItem (faults env) QUICK_CALC_HISTORY_KEY
                          (stringify_history env (quickCalcHistory w'))))
           (\<lambda>error. io_throw error) w')"


section \<open>contexts/StorageContext.tsx: the notes\<close>

definition removeImages :: "jsstring list option \<Rightarrow> (world, unit) io" where
  \<comment> \<open>\<open>utils/imageStorage\<close>: deletes files, catches every failure of its own, and touches
      nothing of the state modelled here\<close>
  "removeImages uris = io_return ()"




definition deleteNote :: "'r platform \<Rightarrow> jsstring \<Rightarrow> (world, bool) io" where
  "deleteNote env ident w =
     io_catch
       (case findIndex (\<lambda>n. n_id n = ident) (notes w) of
          None \<Rightarrow> io_return False
        | Some noteIndex \<Rightarrow>
            (let noteToDelete = notes w ! noteIndex;
                 newNotes = filter (\<lambda>n. n_id n \<noteq> ident) (notes w);
                 newFavoriteNotes = filter (\<lambda>fId. fId \<noteq> ident) (favoriteNotes w)
             in io_bind (removeImages (n_images noteToDelete)) (\<lambda>_.
                io_bind (setFavoriteNotes env newFavoriteNotes) (\<lambda>_.
                io_bind (saveNotes env newNotes) (\<lambda>_. io_return True)))))
       (\<lambda>error. io_return False) w"

definition deleteNotes :: "'r platform \<Rightarrow> jsstring list \<Rightarrow> (world, bool) io" where
  "deleteNotes env ids w =
     io_catch
       (let notesToDelete = filter (\<lambda>n. includes_id ids (n_id n)) (notes w);
            allImagesToRemove =
              concat (map (\<lambda>note. case n_images note of None \<Rightarrow> [] | Some images \<Rightarrow> images)
                          notesToDelete);
            newNotes = filter (\<lambda>n. \<not> includes_id ids (n_id n)) (notes w);
            newFavoriteNotes = filter (\<lambda>fId. \<not> includes_id ids fId) (favoriteNotes w)
        in io_bind (if length allImagesToRemove > 0
                    then io_catch (removeImages (Some allImagesToRemove)) (\<lambda>error. io_return ())
                    else io_return ()) (\<lambda>_.
           io_bind (setFavoriteNotes env newFavoriteNotes) (\<lambda>_.
           io_bind (saveNotes env newNotes) (\<lambda>_. io_return True))))
       (\<lambda>error. io_return False) w"


section \<open>contexts/StorageContext.tsx: the search\<close>

definition is_space :: "jschar \<Rightarrow> bool" where
  \<comment> \<open>the class \<open>\s\<close> of a regular expression, which is also what \<open>trim\<close> removes\<close>
  "is_space c \<longleftrightarrow>
     c \<in> {0x9, 0xA, 0xB, 0xC, 0xD, 0x20, 0xA0, 0x1680, 0x2028, 0x2029, 0x202F, 0x205F,
          0x3000, 0xFEFF}
     \<or> (0x2000 \<le> c \<and> c \<le> 0x200A)"

definition trim :: "jsstring \<Rightarrow> jsstring" where
  "trim s = rev (dropWhile is_space (rev (dropWhile is_space s)))"

function split_ws_from :: "jsstring \<Rightarrow> jsstring \<Rightarrow> jsstring list" where
  \<comment> \<open>\<open>split(/\s+/)\<close>: \<open>cur\<close> is the piece being read; each maximal run of white space
      ends a piece\<close>
  "split_ws_from cur [] = [cur]"
| "split_ws_from cur (c # cs) =
     (if is_space c then cur # split_ws_from [] (dropWhile is_space cs)
      else split_ws_from (cur @ [c]) cs)"
  by pat_completeness auto
termination
  by (relation "measure (\<lambda>(cur, s). length s)")
     (auto simp: length_dropWhile_le le_imp_less_Suc)

definition split_ws :: "jsstring \<Rightarrow> jsstring list" where
  "split_ws s = split_ws_from [] s"

fun join :: "'a list \<Rightarrow> 'a list list \<Rightarrow> 'a list" where
  \<comment> \<open>\<open>Array.prototype.join(separator)\<close>\<close>
  "join sep [] = []"
| "join sep [x] = x"
| "join sep (x # y # ys) = x @ sep @ join sep (y # ys)"

fun "includes" :: "'a list \<Rightarrow> 'a list \<Rightarrow> bool" where
  \<comment> \<open>\<open>text.includes(word)\<close>: \<open>word\<close> starts at some index of \<open>text\<close>\<close>
  "includes [] word = (word = [])"
| "includes (c # cs) word = (startsWith (c # cs) word \<or> includes cs word)"

definition queryWords :: "'r platform \<Rightarrow> jsstring \<Rightarrow> jsstring list" where
  "queryWords env query =
     filter (\<lambda>word. length word > 0) (split_ws (trim (toLowerCase env query)))"

definition searchableText ::
  "'r platform \<Rightarrow> Project \<Rightarrow> Building \<Rightarrow> FunctionalZone \<Rightarrow> Shutter \<Rightarrow> jsstring" where
  "searchableText env project building zone shutter =
     toLowerCase env
       (join (js '' '')
          [s_name shutter, z_name zone, b_name building, p_name project,
           (case p_city project of None \<Rightarrow> [] | Some city \<Rightarrow> city),
           (case s_remarks shutter of None \<Rightarrow> [] | Some remarks \<Rightarrow> remarks)])"

definition searchShutters :: "'r platform \<Rightarrow> world \<Rightarrow> jsstring \<Rightarrow> SearchResult list" where
  \<comment> \<open>the four nested \<open>for ... of\<close> loops over \<open>projectsRef.current\<close>, pushing to \<open>results\<close>\<close>
  "searchShutters env w query =
     (let queryWords = queryWords env query
      in fold (\<lambda>project results.
           fold (\<lambda>building results.
             fold (\<lambda>zone results.
               fold (\<lambda>shutter results.
                 (let searchableText = searchableText env project building zone shutter;
                      matchesAllWords = list_all (\<lambda>word. includes searchableText word) queryWords
                  in if matchesAllWords
                     then results @ [\<lparr>r_shutter = shutter, r_zone = zone,
                                      r_building = building, r_project = project\<rparr>]
                     else results))
                 (shutters zone) results)
               (functionalZones building) results)
             (buildings project) results)
           (projectsRef w) [])"

text \<open>
  The search in the words of the specification: the tokens are the maximal runs of
  characters other than white space in the lower-cased query, and a shutter is returned,
  with its zone, building and project, when each token occurs somewhere in the lower-cased
  fields joined by single spaces.
\<close>

function tokens :: "jsstring \<Rightarrow> jsstring list" where
  "tokens [] = []"
| "tokens (c # cs) =
     (if is_space c then tokens cs
      else takeWhile (\<lambda>x. \<not> is_space x) (c # cs) # tokens (dropWhile (\<lambda>x. \<not> is_space x) cs))"
  by pat_completeness auto
termination
  by (relation "measure length") (auto simp: length_dropWhile_le le_imp_less_Suc)

definition contains_token :: "jsstring \<Rightarrow> jsstring \<Rightarrow> bool" where
  "contains_token text word \<longleftrightarrow> (\<exists>before after. text = before @ word @ after)"

definition spec_text ::
  "'r platform \<Rightarrow> Project \<Rightarrow> Building \<Rightarrow> FunctionalZone \<Rightarrow> Shutter \<Rightarrow> jsstring" where
  "spec_text env p b z s =
     toLowerCase env
       (s_name s @ js '' '' @ z_name z @ js '' '' @ b_name b @ js '' '' @ p_name p @ js '' ''
        @ (case p_city p of None \<Rightarrow> [] | Some city \<Rightarrow> city) @ js '' ''
        @ (case s_remarks s of None \<Rightarrow> [] | Some remarks \<Rightarrow> remarks))"

definition spec_search :: "'r platform \<Rightarrow> Project list \<Rightarrow> jsstring \<Rightarrow> SearchResult list" where
  "spec_search env ps query =
     concat (map (\<lambda>p. concat (map (\<lambda>b. concat (map (\<lambda>z.
       map (\<lambda>s. \<lparr>r_shutter = s, r_zone = z, r_building = b, r_project = p\<rparr>)
         (filter (\<lambda>s. \<forall>word \<in> set (tokens (toLowerCase env query)).
                        contains_token (spec_text env p b z s) word)
            (shutters z)))
       (functionalZones b))) (buildings p))) ps)"


section \<open>When a write of the notes is rejected\<close>



section \<open>Example inputs\<close>

definition ascii_lower :: "jsstring \<Rightarrow> jsstring" where
  \<comment> \<open>\<open>toLowerCase\<close> on strings of ASCII characters\<close>
  "ascii_lower s = map (\<lambda>c. if 0x41 \<le> c \<and> c \<le> 0x5A then c + 0x20 else c) s"

definition example_note :: Note where
  "example_note = \<lparr>n_id = js ''n1'', n_title = js ''t'', n_content = js ''c'',
                    n_images = None, n_createdAt = 1, n_updatedAt = 1\<rparr>"

definition long_note :: Note where
  "long_note = \<lparr>n_id = js ''n2'', n_title = js ''t'', n_content = replicate 512001 0x61,
                 n_images = None, n_createdAt = 1, n_updatedAt = 1\<rparr>"

definition example_stringify_projects :: "Project list \<Rightarrow> jsstring" where
  \<comment> \<open>stands for \<open>JSON.stringify\<close> in the examples: the names of the shutters, in order\<close>
  "example_stringify_projects ps =
     concat (map (\<lambda>p. concat (map (\<lambda>b. concat (map (\<lambda>z.
       concat (map (\<lambda>s. s_name s @ js '';'') (shutters z)))
       (functionalZones b))) (buildings p))) ps)"

definition example_platform :: "Note platform" where
  "example_platform =
     \<lparr>faults = (\<lambda>c. False), precise = True, mobile = False, now = 1000,
      generateUniqueId = js ''1000_abc'', toLowerCase = ascii_lower,
      persistImagesIfNeeded = (\<lambda>images. Inr images),
      stringify_notes = (\<lambda>ns. if ns = [] then js ''[]''
                               else js ''['' @ concat (map n_content ns) @ js '']''),
      stringify_meta = (\<lambda>n t. js ''{totalChunks:'' @ js (show_nat n) @ js ''}''),
      stringify_projects = example_stringify_projects,
      stringify_strings = (\<lambda>ids. js ''['' @ join (js '','') ids @ js '']''),
      stringify_history = (\<lambda>h. js ''['' @ join (js '','') (map q_id h) @ js '']''),
      parse_notes = (\<lambda>s. if s = js ''[1]'' then Array [example_note] else SyntaxError),
      parse_totalChunks = (\<lambda>s. if s = js ''{totalChunks:2}'' then Some 2 else None),
      process_note = Inr\<rparr>"




definition shutterA :: Shutter where
  "shutterA = \<lparr>s_id = js ''A'', s_zoneId = js ''z1'', s_name = js ''Hangar Nord'',
                s_remarks = None, s_createdAt = 1, s_updatedAt = 1\<rparr>"

definition shutterB :: Shutter where
  "shutterB = \<lparr>s_id = js ''B'', s_zoneId = js ''z1'', s_name = js ''Sud'',
                s_remarks = Some (js ''ok''), s_createdAt = 1, s_updatedAt = 1\<rparr>"

definition example_zone :: FunctionalZone where
  "example_zone = \<lparr>z_id = js ''z1'', z_buildingId = js ''b1'', z_name = js ''North wing'',
                    z_createdAt = 1, shutters = [shutterA, shutterB]\<rparr>"

definition example_building :: Building where
  "example_building = \<lparr>b_id = js ''b1'', b_projectId = js ''p1'', b_name = js ''Hall'',
                        b_createdAt = 1, functionalZones = [example_zone]\<rparr>"

definition example_project :: Project where
  "example_project = \<lparr>p_id = js ''p1'', p_name = js ''Site'', p_city = Some (js ''Lyon''),
                       p_createdAt = 1, p_updatedAt = 1, buildings = [example_building]\<rparr>"

definition example_world :: world where
  "example_world =
     \<lparr>storage = [], projects = [example_project], projectsRef = [example_project],
      favoriteProjects = [], favoriteBuildings = [], favoriteZones = [],
      favoriteShutters = [], favoriteNotes = [], quickCalcHistory = [],
      notes = [example_note]\<rparr>"


definition broken_chunks_world :: world where
  \<comment> \<open>a primary value that does not parse, metadata for two chunks, and only the second chunk\<close>
  "broken_chunks_world =
     example_world\<lparr>storage := [(NOTES, js ''{''),
                                (NOTES @ ''_chunks_meta'', js ''{totalChunks:2}''),
                                (chunkKey 1, js ''[1]'')]\<rparr>"


definition example_item :: quickCalcData where
  "example_item = \<lparr>q_referenceFlow = 100, q_measuredFlow = 95, q_deviation = -5,
                    q_status = Compliant, q_color = js ''green''\<rparr>"

definition history_entry :: "string \<Rightarrow> QuickCalcHistoryItem" where
  "history_entry i = quickCalcData.extend example_item \<lparr>q_id = js i, q_timestamp = 1\<rparr>"

definition full_history_world :: world where
  \<comment> \<open>a history that already holds five entries\<close>
  "full_history_world =
     example_world\<lparr>quickCalcHistory := [history_entry ''h5'', history_entry ''h4'',
                      history_entry ''h3'', history_entry ''h2'', history_entry ''h1'']\<rparr>"

definition rename_to :: "string \<Rightarrow> shutter_updates" where
  \<comment> \<open>the update \<open>{ name: ... }\<close>\<close>
  "rename_to name = \<lparr>su_id = None, su_zoneId = None, su_name = Some (js name),
                      su_remarks = None, su_createdAt = None\<rparr>"
section \<open>Chunking: joining the chunks gives the string back\<close>

lemma splitByBytes_loop_concat:
  "concat (splitByBytes_loop m chunks cur rest) = concat chunks @ cur @ rest"
  by (induction rest arbitrary: chunks cur) (simp_all add: Let_def)

lemma splitByBytesLegacy_loop_concat:
  "concat (splitByBytesLegacy_loop m chunks cur rest) = concat chunks @ cur @ rest"
  by (induction rest arbitrary: chunks cur) (simp_all add: Let_def)

lemma joinChunks_splitByBytes: "joinChunks (splitByBytes s m) = s"
  by (simp add: joinChunks_def splitByBytes_def splitByBytes_loop_concat)

lemma joinChunks_splitByBytesLegacy: "joinChunks (splitByBytesLegacy s m) = s"
  by (simp add: joinChunks_def splitByBytesLegacy_def splitByBytesLegacy_loop_concat)

lemma joinChunks_splitStringByBytes: "joinChunks (splitStringByBytes p s m) = s"
  by (simp add: splitStringByBytes_def joinChunks_splitByBytes joinChunks_splitByBytesLegacy)

text \<open>
  C5. For every string \<open>s\<close> and every byte limit \<open>m > 0\<close>, joining the chunks of the
  splitter gives \<open>s\<close> back, for \<open>splitByBytes\<close> and for the estimating
  \<open>splitByBytesLegacy\<close>.
\<close>

theorem C5_join_split_roundtrip:
  "0 < m \<Longrightarrow> joinChunks (splitByBytes s m) = s \<and> joinChunks (splitByBytesLegacy s m) = s"
  by (simp add: joinChunks_def splitByBytes_def splitByBytesLegacy_def
      splitByBytes_loop_concat splitByBytesLegacy_loop_concat)

theorem C5_join_split_roundtrip_witness:
  "(0::int) < 4 \<and> joinChunks (splitByBytes [0x61, 0xD83D, 0xDE00, 0xE9] 4) = [0x61, 0xD83D, 0xDE00, 0xE9]
   \<and> joinChunks (splitByBytesLegacy [0x61, 0xD83D, 0xDE00, 0xE9] 4) = [0x61, 0xD83D, 0xDE00, 0xE9]"
  using C5_join_split_roundtrip [of 4 "[0x61, 0xD83D, 0xDE00, 0xE9]"] by simp



section \<open>Chunking: the size of a chunk, and where the boundaries fall\<close>

text \<open>
  What the loop keeps: every chunk is non-empty and either is one code unit or encodes to
  at most \<open>m\<close> bytes.
\<close>

lemma splitByBytes_loop_chunk_bound:
  assumes "\<forall>c\<in>set chunks. c \<noteq> [] \<and> (length c = 1 \<or> int (length (encode c)) \<le> m)"
    and "cur = [] \<or> length cur = 1 \<or> int (length (encode cur)) \<le> m"
  shows "\<forall>c\<in>set (splitByBytes_loop m chunks cur rest).
           c \<noteq> [] \<and> (length c = 1 \<or> int (length (encode c)) \<le> m)"
  using assms
proof (induction rest arbitrary: chunks cur)
  case Nil
  then show ?case by auto
next
  case (Cons char rest)
  show ?case
  proof (cases "int (length (encode (cur @ [char]))) > m \<and> length cur > 0")
    case True
    have "\<forall>c\<in>set (splitByBytes_loop m (chunks @ [cur]) [char] rest).
           c \<noteq> [] \<and> (length c = 1 \<or> int (length (encode c)) \<le> m)"
      using Cons.prems True by (intro Cons.IH) auto
    with True show ?thesis by (auto simp add: Let_def)
  next
    case False
    have "\<forall>c\<in>set (splitByBytes_loop m chunks (cur @ [char]) rest).
           c \<noteq> [] \<and> (length c = 1 \<or> int (length (encode c)) \<le> m)"
      using Cons.prems False by (intro Cons.IH) auto
    with False show ?thesis by (auto simp add: Let_def)
  qed
qed

lemma splitByBytes_chunk_bound:
  "c \<in> set (splitByBytes s m) \<Longrightarrow>
     c \<noteq> [] \<and> (length c = 1 \<or> int (length (encode c)) \<le> m)"
  using splitByBytes_loop_chunk_bound [of "[]" m "[]" s]
  by (auto simp: splitByBytes_def split: if_splits)

text \<open>
  In a string without surrogates every code unit is a character, and the encodings of the
  chunks, put end to end, are the encoding of the string: no boundary falls inside a
  character.
\<close>

lemma code_points_no_surrogates:
  "\<forall>u\<in>set s. \<not> is_high_surrogate u \<and> \<not> is_low_surrogate u \<Longrightarrow>
     code_points s = map unat s"
  by (induction s rule: code_points.induct) (simp_all add: scalar_of_unit_def)

lemma encode_no_surrogates:
  "\<forall>u\<in>set s. \<not> is_high_surrogate u \<and> \<not> is_low_surrogate u \<Longrightarrow>
     encode s = concat (map (\<lambda>u. utf8_bytes (unat u)) s)"
  by (simp add: encode_def code_points_no_surrogates comp_def)

lemma concat_map_chunks:
  "concat (map (\<lambda>c. concat (map f c)) xss) = concat (map f (concat xss))"
  by (induction xss) simp_all

lemma splitByBytes_no_surrogates:
  assumes "\<forall>u\<in>set s. \<not> is_high_surrogate u \<and> \<not> is_low_surrogate u"
  shows "concat (map encode (splitByBytes s m)) = encode s"
proof -
  have s: "concat (splitByBytes s m) = s"
    using joinChunks_splitByBytes [of s m] by (simp add: joinChunks_def)
  have "\<forall>u\<in>set c. \<not> is_high_surrogate u \<and> \<not> is_low_surrogate u"
    if "c \<in> set (splitByBytes s m)" for c
  proof -
    have "set c \<subseteq> set (concat (splitByBytes s m))" using that by auto
    then show ?thesis using assms by (auto simp: s)
  qed
  then have "map encode (splitByBytes s m)
             = map (\<lambda>c. concat (map (\<lambda>u. utf8_bytes (unat u)) c)) (splitByBytes s m)"
    by (simp add: encode_no_surrogates)
  then have "concat (map encode (splitByBytes s m))
             = concat (map (\<lambda>u. utf8_bytes (unat u)) (concat (splitByBytes s m)))"
    by (simp only: concat_map_chunks)
  then show ?thesis using assms by (simp add: s encode_no_surrogates)
qed

text \<open>
  C6. Every chunk of \<open>splitByBytes s m\<close> encodes to at most \<open>m\<close> bytes unless it is a
  single character that alone exceeds \<open>m\<close>, and no chunk boundary falls inside a
  multi-byte character. The loop reads UTF-16 code units, so this fails for a character
  written as a surrogate pair: in \<open>a\<close> followed by U+1F600 (units \<open>D83D DE00\<close>, four
  bytes \<open>F0 9F 98 80\<close>) with \<open>m = 4\<close>, no character exceeds the limit, yet the boundary
  falls between the two surrogates, and the chunks encode to two replacement characters
  instead of the character.
\<close>

theorem C6_surrogate_pair_is_split:
  "splitByBytes [0x61, 0xD83D, 0xDE00] 4 = [[0x61, 0xD83D], [0xDE00]]
   \<and> is_high_surrogate 0xD83D \<and> is_low_surrogate 0xDE00
   \<and> encode [0x61, 0xD83D, 0xDE00] = [0x61, 0xF0, 0x9F, 0x98, 0x80]
   \<and> concat (map encode (splitByBytes [0x61, 0xD83D, 0xDE00] 4))
       = [0x61, 0xEF, 0xBF, 0xBD, 0xEF, 0xBF, 0xBD]"
  by (simp add: splitByBytes_def encode_def utf8_bytes_def scalar_of_unit_def
      is_high_surrogate_def is_low_surrogate_def)

section \<open>The store after a save of the notes\<close>

lemma map_of_multiRemove:
  "map_of (filter (\<lambda>p. fst p \<notin> set ks) st) k = (if k \<in> set ks then None else map_of st k)"
  by (induction st) auto

lemma keys_delete: "fst ` set (AList.delete k al) = fst ` set al - {k}"
proof -
  have "fst ` set (AList.delete k al) = set (map fst (AList.delete k al))" by simp
  also have "\<dots> = set (map fst al) - {k}" by (simp only: delete_keys set_removeAll)
  finally show ?thesis by simp
qed

lemma write_chunks_ok:
  "fst (write_chunks (\<lambda>c. False) i cs st) = Inr ()"
  by (induction cs arbitrary: i st) (simp_all add: setItem_def)

lemma write_chunks_keys:
  "fst ` set st \<subseteq> fst ` set (snd (write_chunks (\<lambda>c. False) i cs st))"
proof (induction cs arbitrary: i st)
  case Nil
  then show ?case by simp
next
  case (Cons c cs)
  have "fst ` set st \<subseteq> fst ` set (AList.update (chunkKey i) c st)"
    by (auto simp: dom_update)
  also have "\<dots> \<subseteq> fst ` set (snd (write_chunks (\<lambda>c. False) (Suc i) cs
                                  (AList.update (chunkKey i) c st)))"
    by (rule Cons.IH)
  finally show ?case by (simp add: setItem_def)
qed

lemma write_chunks_first_key:
  assumes "cs \<noteq> []"
  shows "chunkKey i \<in> fst ` set (snd (write_chunks (\<lambda>c. False) i cs st))"
proof -
  obtain c cs' where cs: "cs = c # cs'" using assms by (cases cs) auto
  have "chunkKey i \<in> fst ` set (AList.update (chunkKey i) c st)"
    by (simp add: dom_update)
  then have "chunkKey i \<in> fst ` set (snd (write_chunks (\<lambda>c. False) (Suc i) cs'
                                       (AList.update (chunkKey i) c st)))"
    using write_chunks_keys [of "AList.update (chunkKey i) c st" "Suc i" cs'] by blast
  then show ?thesis
    by (simp add: cs setItem_def)
qed

lemma startsWith_chunkKey: "startsWith (chunkKey i) chunkPrefix"
  by (simp add: startsWith_def chunkKey_def)

lemma not_startsWith_keys:
  "\<not> startsWith NOTES chunkPrefix" "\<not> startsWith NOTES_TMP chunkPrefix"
  "\<not> startsWith NOTES_META chunkPrefix"
  by (simp_all add: startsWith_def chunkPrefix_def NOTES_def NOTES_TMP_def NOTES_META_def)

lemma chunkKey_neq:
  "chunkKey i \<noteq> NOTES" "chunkKey i \<noteq> NOTES_TMP" "chunkKey i \<noteq> NOTES_META"
  using startsWith_chunkKey [of i] not_startsWith_keys by auto

lemma keys_neq: "NOTES \<noteq> NOTES_META" "NOTES \<noteq> NOTES_TMP" "NOTES_TMP \<noteq> NOTES_META"
  by (simp_all add: NOTES_def NOTES_TMP_def NOTES_META_def)

lemma splitStringByBytes_nonempty: "s \<noteq> [] \<Longrightarrow> splitStringByBytes p s m \<noteq> []"
  using joinChunks_splitStringByBytes [of p s m] by (auto simp: joinChunks_def)

text \<open>
  \<open>cleanupOldChunks\<close>, when the store holds a key with the chunk prefix: every key with
  that prefix goes, and the metadata key with them; the other keys stay.
\<close>

lemma cleanupOldChunks_eq:
  assumes "k0 \<in> fst ` set st" "startsWith k0 chunkPrefix"
  shows "cleanupOldChunks (\<lambda>c. False) st
        = (Inr (), AList.delete NOTES_META
             (filter (\<lambda>p. fst p \<notin> set (filter (\<lambda>key. startsWith key chunkPrefix) (map fst st))) st))"
proof -
  have ne: "filter (\<lambda>key. startsWith key chunkPrefix) (map fst st) \<noteq> []"
    using assms by (auto simp: filter_empty_conv)
  show ?thesis
    using ne
    by (simp add: cleanupOldChunks_def io_catch_def io_bind_def getAllKeys_def multiRemove_def
        removeItem_def io_return_def Let_def)
qed

lemma cleanupOldChunks_removes:
  assumes ex: "k0 \<in> fst ` set st" "startsWith k0 chunkPrefix"
  shows "fst (cleanupOldChunks (\<lambda>c. False) st) = Inr ()"
    and "map_of (snd (cleanupOldChunks (\<lambda>c. False) st)) NOTES_META = None"
    and "startsWith k chunkPrefix \<Longrightarrow> map_of (snd (cleanupOldChunks (\<lambda>c. False) st)) k = None"
    and "\<not> startsWith k chunkPrefix \<Longrightarrow> k \<noteq> NOTES_META \<Longrightarrow>
           map_of (snd (cleanupOldChunks (\<lambda>c. False) st)) k = map_of st k"
proof -
  let ?ck = "filter (\<lambda>key. startsWith key chunkPrefix) (map fst st)"
  note eq = cleanupOldChunks_eq [OF ex]
  show "fst (cleanupOldChunks (\<lambda>c. False) st) = Inr ()" by (simp add: eq)
  show "map_of (snd (cleanupOldChunks (\<lambda>c. False) st)) NOTES_META = None"
    by (simp add: eq delete_conv')
  show "map_of (snd (cleanupOldChunks (\<lambda>c. False) st)) k = None" if "startsWith k chunkPrefix"
  proof (cases "k \<in> fst ` set st")
    case True
    then have "k \<in> set ?ck" using that by auto
    then show ?thesis unfolding eq snd_conv delete_conv' map_of_multiRemove by simp
  next
    case False
    then have "map_of st k = None" by (simp add: map_of_eq_None_iff)
    then show ?thesis unfolding eq snd_conv delete_conv' map_of_multiRemove by simp
  qed
  show "map_of (snd (cleanupOldChunks (\<lambda>c. False) st)) k = map_of st k"
    if "\<not> startsWith k chunkPrefix" "k \<noteq> NOTES_META"
  proof -
    have "k \<notin> set ?ck" using that by auto
    then show ?thesis using that unfolding eq snd_conv delete_conv' map_of_multiRemove by simp
  qed
qed

text \<open>
  A save that takes the chunked branch, with no call rejected: it succeeds, and the store it
  leaves has no primary key, no metadata key and no chunk key.
\<close>

lemma saveNotes_chunked:
  assumes nf: "faults env = (\<lambda>c. False)"
    and san: "sanitizeNotesImages env newNotes = Inr sanitized"
    and big: "int (length (stringify_notes env sanitized)) > 500 * 1024"
  shows "fst (saveNotes env newNotes w) = Inr ()"
    and "notes (snd (saveNotes env newNotes w)) = sanitized"
    and "map_of (storage (snd (saveNotes env newNotes w))) NOTES = None"
    and "map_of (storage (snd (saveNotes env newNotes w))) NOTES_META = None"
    and "map_of (storage (snd (saveNotes env newNotes w))) (chunkKey i) = None"
proof -
  let ?doc = "stringify_notes env sanitized"
  let ?chunks = "splitStringByBytes (precise env) ?doc maxChunkSize"
  let ?st2 = "AList.update NOTES_META (stringify_meta env (length ?chunks) (now env))
                (AList.update NOTES_TMP ?doc (storage w))"
  obtain st3 where w3: "write_chunks (\<lambda>c. False) 0 ?chunks ?st2 = (Inr (), st3)"
    using write_chunks_ok [of 0 ?chunks ?st2] by (metis prod.collapse)
  let ?st5 = "AList.delete NOTES_TMP (AList.delete NOTES st3)"
  have "?doc \<noteq> []" using big by auto
  then have "?chunks \<noteq> []" by (rule splitStringByBytes_nonempty)
  then have "chunkKey 0 \<in> fst ` set st3"
    using write_chunks_first_key [of ?chunks 0 ?st2] by (simp add: w3)
  then have k0: "chunkKey 0 \<in> fst ` set ?st5"
    using chunkKey_neq [of 0] by (simp add: keys_delete)
  note cl = cleanupOldChunks_removes [OF k0 startsWith_chunkKey]
  obtain st6 where w6: "cleanupOldChunks (\<lambda>c. False) ?st5 = (Inr (), st6)"
    using cl(1) by (metis prod.collapse)
  have eq: "saveNotes env newNotes w = (Inr (), w\<lparr>storage := st6, notes := sanitized\<rparr>)"
    using big
    by (simp add: saveNotes_def nf san io_catch_def io_bind_def on_storage_def setItem_def
        removeItem_def saveNotesWithUTF8Chunks_def Let_def w3 w6 setNotes_def)
  show "fst (saveNotes env newNotes w) = Inr ()" by (simp add: eq)
  show "notes (snd (saveNotes env newNotes w)) = sanitized" by (simp add: eq)
  show "map_of (storage (snd (saveNotes env newNotes w))) NOTES_META = None"
    using cl(2) by (simp add: eq w6)
  show "map_of (storage (snd (saveNotes env newNotes w))) (chunkKey i) = None"
    using cl(3) [OF startsWith_chunkKey, of i] by (simp add: eq w6)
  have "map_of st6 NOTES = map_of ?st5 NOTES"
    using cl(4) [OF not_startsWith_keys(1) keys_neq(1)] by (simp add: w6)
  also have "\<dots> = None" by (simp add: delete_conv')
  finally show "map_of (storage (snd (saveNotes env newNotes w))) NOTES = None"
    by (simp add: eq)
qed

text \<open>The load when the primary key is absent: nothing else is read, the notes are empty.\<close>

lemma initializeStorage_notes_absent:
  assumes "map_of (storage w) NOTES = None"
  shows "initializeStorage_notes env w = (Inr (), w\<lparr>notes := []\<rparr>)"
  using assms
  by (simp add: initializeStorage_notes_def io_bind_def io_catch_def on_storage_def
      safeStorageOperation_def getItem_def io_return_def truthy_def setNotes_def)

text \<open>
  C2. After a save, the cleanup deletes only chunk and metadata keys left by an earlier
  save; the keys the save has just written stay. In the code \<open>cleanupOldChunks\<close> runs
  after the chunks are written and removes every key with the chunk prefix, then the
  metadata key: after a chunked save with no rejected call, at least one chunk was written
  and none of the written keys is left.
\<close>

theorem C2_cleanup_removes_written_chunks:
  assumes "\<forall>c. \<not> faults env c"
    and "sanitizeNotesImages env newNotes = Inr sanitized"
    and "int (length (stringify_notes env sanitized)) > 500 * 1024"
  shows "fst (saveNotes env newNotes w) = Inr ()
       \<and> splitStringByBytes (precise env) (stringify_notes env sanitized) maxChunkSize \<noteq> []
       \<and> map_of (storage (snd (saveNotes env newNotes w))) NOTES_META = None
       \<and> (\<forall>i. map_of (storage (snd (saveNotes env newNotes w))) (chunkKey i) = None)"
proof -
  have nf: "faults env = (\<lambda>c. False)" using assms(1) by auto
  have "stringify_notes env sanitized \<noteq> []" using assms(3) by auto
  then have "splitStringByBytes (precise env) (stringify_notes env sanitized) maxChunkSize \<noteq> []"
    by (rule splitStringByBytes_nonempty)
  then show ?thesis
    using saveNotes_chunked(1,4,5) [OF nf assms(2,3)] by simp
qed

text \<open>
  C1. A notes collection whose serialization is over the chunk threshold, saved and then
  loaded, comes back deep-equal. In the code the save leaves neither the primary key nor
  any chunk, and the load of \<open>initializeStorage\<close> reads chunks only when the primary
  value is present and fails to parse: the loaded collection is empty, under every
  platform, while the saved one was not.
\<close>

theorem C1_chunked_save_then_load_is_empty:
  assumes "\<forall>c. \<not> faults env c"
    and "sanitizeNotesImages env newNotes = Inr sanitized"
    and "int (length (stringify_notes env sanitized)) > 500 * 1024"
    and "stringify_notes env [] = js ''[]''"
  shows "fst (saveNotes env newNotes w) = Inr ()
       \<and> notes (snd (saveNotes env newNotes w)) = sanitized
       \<and> sanitized \<noteq> []
       \<and> (\<forall>env'. notes (snd (initializeStorage_notes env' (snd (saveNotes env newNotes w)))) = [])"
proof -
  have nf: "faults env = (\<lambda>c. False)" using assms(1) by auto
  have ne: "sanitized \<noteq> []" using assms(3,4) by (auto simp: js_def)
  have absent: "map_of (storage (snd (saveNotes env newNotes w))) NOTES = None"
    by (rule saveNotes_chunked(3) [OF nf assms(2,3)])
  have "notes (snd (initializeStorage_notes env' (snd (saveNotes env newNotes w)))) = []"
    for env' :: "'c platform"
    by (simp add: initializeStorage_notes_absent [OF absent])
  then show ?thesis
    using saveNotes_chunked(1,2) [OF nf assms(2,3)] ne by blast
qed

section \<open>What the paths beside the running ones do\<close>

text \<open>
  The chunk keys of different indices differ, so the chunks written by
  \<open>saveNotesWithUTF8Chunks\<close> can be read back one by one: right after it,
  \<open>loadNotesFromChunks\<close> gives the document back. A save below the threshold is read
  back by the load from the primary key.
\<close>

lemma show_nat_nonempty: "show_nat n \<noteq> []"
  by (subst show_nat.simps) simp

lemma digit_inj:
  assumes "a < 10" "b < 10" "''0123456789'' ! a = ''0123456789'' ! b"
  shows "a = b"
proof -
  have "distinct ''0123456789''" by simp
  moreover have "a < length ''0123456789''" "b < length ''0123456789''" using assms by simp_all
  ultimately show ?thesis using assms(3) by (simp only: nth_eq_iff_index_eq)
qed

lemma show_nat_inj: "show_nat m = show_nat n \<Longrightarrow> m = n"
proof (induction m arbitrary: n rule: show_nat.induct)
  case (1 m)
  show ?case
  proof (cases "m < 10")
    case small: True
    show ?thesis
    proof (cases "n < 10")
      case True
      then have "''0123456789'' ! m = ''0123456789'' ! n"
        using "1.prems" small by (subst (asm) show_nat.simps, subst (asm) (2) show_nat.simps) simp
      then show ?thesis using digit_inj small True by blast
    next
      case False
      then have "length (show_nat n) \<ge> 2"
        using show_nat_nonempty [of "n div 10"]
        by (subst show_nat.simps) (cases "show_nat (n div 10)"; simp)
      moreover have "length (show_nat m) = 1"
        using small by (subst show_nat.simps) simp
      ultimately show ?thesis using "1.prems" by simp
    qed
  next
    case big: False
    show ?thesis
    proof (cases "n < 10")
      case True
      have "length (show_nat m) \<ge> 2"
        using big show_nat_nonempty [of "m div 10"]
        by (subst show_nat.simps) (cases "show_nat (m div 10)"; simp)
      moreover have "length (show_nat n) = 1"
        using True by (subst show_nat.simps) simp
      ultimately show ?thesis using "1.prems" by simp
    next
      case False
      have "show_nat (m div 10) @ [''0123456789'' ! (m mod 10)]
            = show_nat (n div 10) @ [''0123456789'' ! (n mod 10)]"
        using "1.prems" big False
        by (subst (asm) show_nat.simps, subst (asm) (2) show_nat.simps) simp
      then have "show_nat (m div 10) = show_nat (n div 10)"
        and d: "''0123456789'' ! (m mod 10) = ''0123456789'' ! (n mod 10)"
        by simp_all
      then have "m div 10 = n div 10" using "1.IH" [OF big] by blast
      moreover have "m mod 10 = n mod 10" using digit_inj [OF _ _ d] by simp
      ultimately show ?thesis by (metis div_mult_mod_eq)
    qed
  qed
qed

lemma chunkKey_inj: "chunkKey i = chunkKey j \<longleftrightarrow> i = j"
  using show_nat_inj by (auto simp: chunkKey_def)

lemma write_chunks_other:
  "(\<forall>j. k \<noteq> chunkKey (i + j)) \<Longrightarrow>
     map_of (snd (write_chunks (\<lambda>c. False) i cs st)) k = map_of st k"
proof (induction cs arbitrary: i st)
  case Nil
  then show ?case by simp
next
  case (Cons c cs)
  have "\<forall>j. k \<noteq> chunkKey (Suc i + j)"
    using Cons.prems by (metis add_Suc_shift)
  from Cons.IH [OF this, of "AList.update (chunkKey i) c st"]
  show ?case using Cons.prems [rule_format, of 0] by (simp add: setItem_def update_conv')
qed

lemma write_chunks_lookup:
  "j < length cs \<Longrightarrow>
     map_of (snd (write_chunks (\<lambda>c. False) i cs st)) (chunkKey (i + j)) = Some (cs ! j)"
proof (induction cs arbitrary: i j st)
  case Nil
  then show ?case by simp
next
  case (Cons c cs)
  show ?case
  proof (cases j)
    case 0
    have "\<forall>j'. chunkKey i \<noteq> chunkKey (Suc i + j')" by (simp add: chunkKey_inj)
    from write_chunks_other [OF this, of cs "AList.update (chunkKey i) c st"]
    show ?thesis using 0 by (simp add: setItem_def update_conv')
  next
    case (Suc j')
    then have "j' < length cs" using Cons.prems by simp
    from Cons.IH [OF this, of "Suc i" "AList.update (chunkKey i) c st"]
    show ?thesis using Suc by (simp add: setItem_def)
  qed
qed

lemma read_chunks_all:
  assumes "\<And>j. j < n \<Longrightarrow> map_of st (chunkKey (i + j)) = Some (cs ! j)"
    and "\<And>j. j < n \<Longrightarrow> cs ! j \<noteq> []"
    and "n \<le> length cs"
  shows "read_chunks (\<lambda>c. False) n i acc st = (Inr (Some (acc @ take n cs)), st)"
  using assms
proof (induction n arbitrary: i acc cs)
  case 0
  then show ?case by simp
next
  case (Suc n)
  obtain c cs' where cs: "cs = c # cs'" using Suc.prems(3) by (cases cs) auto
  have c0: "map_of st (chunkKey i) = Some c" "c \<noteq> []"
    using Suc.prems(1) [of 0] Suc.prems(2) [of 0] by (simp_all add: cs)
  have "read_chunks (\<lambda>c. False) n (Suc i) (acc @ [c]) st
          = (Inr (Some ((acc @ [c]) @ take n cs')), st)"
  proof (rule Suc.IH)
    show "map_of st (chunkKey (Suc i + j)) = Some (cs' ! j)" if "j < n" for j
      using Suc.prems(1) [of "Suc j"] that by (simp add: cs)
    show "cs' ! j \<noteq> []" if "j < n" for j
      using Suc.prems(2) [of "Suc j"] that by (simp add: cs)
    show "n \<le> length cs'" using Suc.prems(3) by (simp add: cs)
  qed
  then show ?case using c0 by (simp add: getItem_def truthy_def cs)
qed

lemma splitByBytesLegacy_loop_nonempty:
  assumes "\<forall>c\<in>set chunks. c \<noteq> []"
  shows "\<forall>c\<in>set (splitByBytesLegacy_loop m chunks cur rest). c \<noteq> []"
  using assms
proof (induction rest arbitrary: chunks cur)
  case Nil
  then show ?case by auto
next
  case (Cons char rest)
  show ?case
  proof (cases "int (length (cur @ [char]) * 3) > m \<and> length cur > 0")
    case True
    have "\<forall>c\<in>set (splitByBytesLegacy_loop m (chunks @ [cur]) [char] rest). c \<noteq> []"
      using Cons.prems True by (intro Cons.IH) auto
    with True show ?thesis by (auto simp add: Let_def)
  next
    case False
    have "\<forall>c\<in>set (splitByBytesLegacy_loop m chunks (cur @ [char]) rest). c \<noteq> []"
      using Cons.prems by (intro Cons.IH) auto
    with False show ?thesis by (auto simp add: Let_def)
  qed
qed

lemma splitStringByBytes_chunks_nonempty:
  "c \<in> set (splitStringByBytes p s m) \<Longrightarrow> c \<noteq> []"
  using splitByBytes_chunk_bound [of c s m] splitByBytesLegacy_loop_nonempty [of "[]" m "[]" s]
  by (auto simp: splitStringByBytes_def splitByBytesLegacy_def split: if_splits)

lemma chunks_then_loadNotesFromChunks:
  assumes nf: "faults env = (\<lambda>c. False)"
    and meta: "stringify_meta env (length (splitStringByBytes (precise env) doc maxChunkSize))
                 (now env) \<noteq> []"
      "parse_totalChunks env
         (stringify_meta env (length (splitStringByBytes (precise env) doc maxChunkSize)) (now env))
       = Some (length (splitStringByBytes (precise env) doc maxChunkSize))"
  shows "fst (saveNotesWithUTF8Chunks env doc st) = Inr ()"
    and "loadNotesFromChunks env (snd (saveNotesWithUTF8Chunks env doc st))
           = (Inr (Some doc), snd (saveNotesWithUTF8Chunks env doc st))"
proof -
  let ?chunks = "splitStringByBytes (precise env) doc maxChunkSize"
  let ?meta = "stringify_meta env (length ?chunks) (now env)"
  let ?st2 = "AList.update NOTES_META ?meta st"
  obtain st3 where w3: "write_chunks (\<lambda>c. False) 0 ?chunks ?st2 = (Inr (), st3)"
    using write_chunks_ok [of 0 ?chunks ?st2] by (metis prod.collapse)
  have eq: "saveNotesWithUTF8Chunks env doc st = (Inr (), AList.delete NOTES st3)"
    by (simp add: saveNotesWithUTF8Chunks_def Let_def nf io_bind_def setItem_def removeItem_def w3)
  show "fst (saveNotesWithUTF8Chunks env doc st) = Inr ()" by (simp add: eq)
  have "\<forall>j. NOTES_META \<noteq> chunkKey (0 + j)" using chunkKey_neq(3) by metis
  from write_chunks_other [OF this, of ?chunks ?st2]
  have m: "map_of (AList.delete NOTES st3) NOTES_META = Some ?meta"
    using keys_neq(1) by (simp add: w3 delete_conv' update_conv')
  have c: "map_of (AList.delete NOTES st3) (chunkKey (0 + j)) = Some (?chunks ! j)"
    if "j < length ?chunks" for j
    using write_chunks_lookup [OF that, of 0 ?st2] chunkKey_neq(1) [of j]
    by (simp add: w3 delete_conv')
  have ne: "?chunks ! j \<noteq> []" if "j < length ?chunks" for j
    using splitStringByBytes_chunks_nonempty [of "?chunks ! j" "precise env" doc maxChunkSize] that
    by simp
  have "read_chunks (\<lambda>c. False) (length ?chunks) 0 [] (AList.delete NOTES st3)
          = (Inr (Some ([] @ take (length ?chunks) ?chunks)), AList.delete NOTES st3)"
    by (rule read_chunks_all) (use c ne in auto)
  then show "loadNotesFromChunks env (snd (saveNotesWithUTF8Chunks env doc st))
           = (Inr (Some doc), snd (saveNotesWithUTF8Chunks env doc st))"
    using m meta
    by (simp add: eq loadNotesFromChunks_def nf io_catch_def io_bind_def getItem_def truthy_def
        io_return_def joinChunks_splitStringByBytes)
qed

lemma direct_keys:
  "set (map fst (AList.delete NOTES_TMP (AList.update NOTES d (AList.update NOTES_TMP d st))))
     = insert NOTES (fst ` set st) - {NOTES_TMP}"
proof -
  have "set (map fst (AList.delete NOTES_TMP (AList.update NOTES d (AList.update NOTES_TMP d st))))
        = fst ` set (AList.delete NOTES_TMP (AList.update NOTES d (AList.update NOTES_TMP d st)))"
    by simp
  also have "\<dots> = fst ` set (AList.update NOTES d (AList.update NOTES_TMP d st)) - {NOTES_TMP}"
    by (rule keys_delete)
  also have "fst ` set (AList.update NOTES d (AList.update NOTES_TMP d st))
             = {NOTES} \<union> ({NOTES_TMP} \<union> fst ` set st)"
    by (simp only: dom_update)
  finally show ?thesis by auto
qed

lemma direct_no_chunk_keys:
  assumes "\<forall>k\<in>fst ` set st. \<not> startsWith k chunkPrefix"
  shows "filter (\<lambda>key. startsWith key chunkPrefix)
           (map fst (AList.delete NOTES_TMP (AList.update NOTES d (AList.update NOTES_TMP d st)))) = []"
  unfolding filter_empty_conv direct_keys
  using assms not_startsWith_keys(1) by auto


lemma saveNotes_direct:
  assumes nf: "faults env = (\<lambda>c. False)"
    and san: "sanitizeNotesImages env newNotes = Inr sanitized"
    and small: "\<not> int (length (stringify_notes env sanitized)) > 500 * 1024"
    and nochunks: "\<forall>k\<in>fst ` set (storage w). \<not> startsWith k chunkPrefix"
  shows "saveNotes env newNotes w
           = (Inr (), w\<lparr>storage := AList.delete NOTES_TMP
                          (AList.update NOTES (stringify_notes env sanitized)
                             (AList.update NOTES_TMP (stringify_notes env sanitized) (storage w))),
                        notes := sanitized\<rparr>)"
proof -
  let ?doc = "stringify_notes env sanitized"
  let ?st = "AList.delete NOTES_TMP (AList.update NOTES ?doc (AList.update NOTES_TMP ?doc (storage w)))"
  have "cleanupOldChunks (\<lambda>c. False) ?st = (Inr (), ?st)"
    by (simp add: cleanupOldChunks_def io_catch_def io_bind_def getAllKeys_def io_return_def
        direct_no_chunk_keys [OF nochunks])
  then show ?thesis
    using small
    by (simp add: saveNotes_def nf san io_catch_def io_bind_def on_storage_def setItem_def
        removeItem_def Let_def setNotes_def)
qed


lemma direct_save_then_load:
  assumes nf: "faults env = (\<lambda>c. False)"
    and san: "sanitizeNotesImages env newNotes = Inr sanitized"
    and small: "\<not> int (length (stringify_notes env sanitized)) > 500 * 1024"
    and nochunks: "\<forall>k\<in>fst ` set (storage w). \<not> startsWith k chunkPrefix"
    and doc: "stringify_notes env sanitized \<noteq> []"
      "stringify_notes env sanitized \<noteq> js ''undefined''"
      "stringify_notes env sanitized \<noteq> js ''null''"
    and parse: "parse_notes env (stringify_notes env sanitized) = Array raw"
    and process: "process_notes (process_note env) raw = Inr loaded"
  shows "notes (snd (initializeStorage_notes env (snd (saveNotes env newNotes w)))) = loaded"
proof -
  let ?doc = "stringify_notes env sanitized"
  let ?st = "AList.delete NOTES_TMP (AList.update NOTES ?doc (AList.update NOTES_TMP ?doc (storage w)))"
  have w': "snd (saveNotes env newNotes w) = w\<lparr>storage := ?st, notes := sanitized\<rparr>"
    by (simp add: saveNotes_direct [OF nf san small nochunks])
  have look: "map_of ?st NOTES = Some ?doc"
    using keys_neq(2) by (simp add: delete_conv' update_conv')
  show ?thesis
    unfolding w'
    using doc parse process look
    by (simp add: initializeStorage_notes_def nf io_bind_def io_catch_def on_storage_def
      safeStorageOperation_def getItem_def io_return_def truthy_def setNotes_def)
qed

lemma example_platform_simps:
  "faults example_platform = (\<lambda>c. False)"
  "precise example_platform = True"
  "mobile example_platform = False"
  "now example_platform = 1000"
  "generateUniqueId example_platform = js ''1000_abc''"
  "toLowerCase example_platform = ascii_lower"
  "persistImagesIfNeeded example_platform = (\<lambda>images. Inr images)"
  "stringify_notes example_platform =
     (\<lambda>ns. if ns = [] then js ''[]'' else js ''['' @ concat (map n_content ns) @ js '']'')"
  "stringify_projects example_platform = example_stringify_projects"
  "parse_notes example_platform =
     (\<lambda>s. if s = js ''[1]'' then Array [example_note] else SyntaxError)"
  "parse_totalChunks example_platform =
     (\<lambda>s. if s = js ''{totalChunks:2}'' then Some 2 else None)"
  "process_note example_platform = Inr"
  by (simp_all add: example_platform_def)

lemma long_note_stringify:
  "int (length (stringify_notes example_platform [long_note])) > 500 * 1024"
  by (simp add: example_platform_simps long_note_def js_def)

lemma example_sanitize: "sanitizeNotesImages example_platform ns = Inr ns"
  by (simp add: sanitizeNotesImages_def example_platform_simps)

theorem C2_cleanup_removes_written_chunks_witness:
  "(\<forall>c. \<not> faults example_platform c)
   \<and> sanitizeNotesImages example_platform [long_note] = Inr [long_note]
   \<and> int (length (stringify_notes example_platform [long_note])) > 500 * 1024
   \<and> fst (saveNotes example_platform [long_note] example_world) = Inr ()
   \<and> splitStringByBytes (precise example_platform)
        (stringify_notes example_platform [long_note]) maxChunkSize \<noteq> []
   \<and> map_of (storage (snd (saveNotes example_platform [long_note] example_world))) NOTES_META
       = None
   \<and> (\<forall>i. map_of (storage (snd (saveNotes example_platform [long_note] example_world)))
              (chunkKey i) = None)"
proof -
  have 1: "\<forall>c. \<not> faults example_platform c" by (simp add: example_platform_simps)
  show ?thesis
    using C2_cleanup_removes_written_chunks
            [OF 1 example_sanitize long_note_stringify, of example_world]
      1 example_sanitize long_note_stringify
    by blast
qed

theorem C1_chunked_save_then_load_is_empty_witness:
  "(\<forall>c. \<not> faults example_platform c)
   \<and> sanitizeNotesImages example_platform [long_note] = Inr [long_note]
   \<and> int (length (stringify_notes example_platform [long_note])) > 500 * 1024
   \<and> stringify_notes example_platform [] = js ''[]''
   \<and> fst (saveNotes example_platform [long_note] example_world) = Inr ()
   \<and> notes (snd (saveNotes example_platform [long_note] example_world)) = [long_note]
   \<and> notes (snd (initializeStorage_notes example_platform
                    (snd (saveNotes example_platform [long_note] example_world)))) = []"
proof -
  have 1: "\<forall>c. \<not> faults example_platform c" by (simp add: example_platform_simps)
  have 4: "stringify_notes example_platform [] = js ''[]''"
    by (simp add: example_platform_simps)
  show ?thesis
    using C1_chunked_save_then_load_is_empty
            [OF 1 example_sanitize long_note_stringify 4, of example_world]
      1 example_sanitize long_note_stringify 4
    by blast
qed


section \<open>The load when a chunk is missing\<close>

lemma show_nat_0: "show_nat 0 = ''0''"
  by (subst show_nat.simps) simp

lemma show_nat_1: "show_nat (Suc 0) = ''1''"
  by (subst show_nat.simps) simp

text \<open>
  \<open>loadNotesFromChunks\<close>, which nothing calls, gives up at the first chunk that is
  missing or empty, whatever else the store holds.
\<close>

lemma read_chunks_missing:
  assumes "j < n" "\<not> truthy (map_of st (chunkKey (i + j)))"
  shows "case fst (read_chunks f n i acc st) of Inl e \<Rightarrow> True | Inr r \<Rightarrow> r = None"
  using assms
proof (induction n arbitrary: i j acc)
  case 0
  then show ?case by simp
next
  case (Suc n)
  show ?case
  proof (cases j)
    case 0
    then show ?thesis using Suc.prems by (simp add: getItem_def)
  next
    case (Suc j')
    then have "j' < n" "\<not> truthy (map_of st (chunkKey (Suc i + j')))"
      using Suc.prems by auto
    from Suc.IH [OF this] show ?thesis
      by (simp add: getItem_def)
  qed
qed

lemma read_chunks_store: "snd (read_chunks f n i acc st) = st"
  by (induction n arbitrary: i acc) (simp_all add: getItem_def)

lemma loadNotesFromChunks_missing_chunk:
  assumes "map_of st NOTES_META = Some m" "parse_totalChunks env m = Some n"
    and "j < n" "\<not> truthy (map_of st (chunkKey j))"
  shows "loadNotesFromChunks env st = (Inr None, st)"
proof -
  have "case fst (read_chunks (faults env) n 0 [] st) of Inl e \<Rightarrow> True | Inr r \<Rightarrow> r = None"
    using read_chunks_missing [of j n st 0 "faults env" "[]"] assms(3,4) by simp
  moreover have "snd (read_chunks (faults env) n 0 [] st) = st" by (rule read_chunks_store)
  ultimately show ?thesis
    using assms(1,2)
    by (cases "read_chunks (faults env) n 0 [] st")
       (auto simp add: loadNotesFromChunks_def io_catch_def io_bind_def getItem_def io_return_def
        io_throw_def split: sum.splits)
qed

text \<open>
  C3. When the primary key is absent or does not parse, the load reads the metadata key and
  then the chunk keys \<open>0..count-1\<close>, and a missing chunk makes the chunked load fail rather
  than give the collection of the remaining chunks. The load that runs is the one inside
  \<open>initializeStorage\<close>: its loop passes over a chunk that is missing and goes on, so with
  metadata for two chunks and only the second one in the store, the notes of the second
  chunk are loaded.
\<close>

theorem C3_missing_chunk_is_skipped:
  assumes "\<forall>c. \<not> faults env c"
    and "map_of (storage w) NOTES = Some d" "d \<noteq> []" "d \<noteq> js ''undefined''" "d \<noteq> js ''null''"
      "parse_notes env d = SyntaxError"
    and "map_of (storage w) (NOTES @ ''_chunks_meta'') = Some m" "m \<noteq> []"
      "parse_totalChunks env m = Some 2"
    and "map_of (storage w) (chunkKey 0) = None"
    and "map_of (storage w) (chunkKey 1) = Some c" "c \<noteq> []" "parse_notes env c = Array items"
    and "process_notes (process_note env) items = Inr ns"
  shows "initializeStorage_notes env w = (Inr (), w\<lparr>notes := ns\<rparr>)"
proof -
  have f: "faults env = (\<lambda>c. False)" using assms(1) by auto
  have two: "(2::nat) = Suc (Suc 0)" by simp
  have "load_inline_chunks env (storage w) = (Inr items, storage w)"
    using assms(7-13)
    by (simp add: load_inline_chunks_def f io_catch_def io_bind_def getItem_def truthy_def two)
  then show ?thesis
    using assms(2-6,14)
    by (simp add: initializeStorage_notes_def f io_bind_def io_catch_def on_storage_def
      safeStorageOperation_def getItem_def io_return_def truthy_def setNotes_def)
qed

theorem C3_missing_chunk_is_skipped_witness:
  "map_of (storage broken_chunks_world) NOTES = Some (js ''{'')
   \<and> parse_notes example_platform (js ''{'') = SyntaxError
   \<and> map_of (storage broken_chunks_world) (NOTES @ ''_chunks_meta'') = Some (js ''{totalChunks:2}'')
   \<and> parse_totalChunks example_platform (js ''{totalChunks:2}'') = Some 2
   \<and> map_of (storage broken_chunks_world) (chunkKey 0) = None
   \<and> map_of (storage broken_chunks_world) (chunkKey 1) = Some (js ''[1]'')
   \<and> parse_notes example_platform (js ''[1]'') = Array [example_note]
   \<and> initializeStorage_notes example_platform broken_chunks_world
       = (Inr (), broken_chunks_world\<lparr>notes := [example_note]\<rparr>)"
proof -
  have k: "chunkKey 0 = ''SIEMENS_NOTES_chunk_0''" "chunkKey 1 = ''SIEMENS_NOTES_chunk_1''"
    "chunkKey (Suc 0) = ''SIEMENS_NOTES_chunk_1''"
    by (simp_all add: chunkKey_def chunkPrefix_def NOTES_def show_nat_0 show_nat_1)
  have st: "storage broken_chunks_world
            = [(''SIEMENS_NOTES'', js ''{''), (''SIEMENS_NOTES_chunks_meta'', js ''{totalChunks:2}''),
               (''SIEMENS_NOTES_chunk_1'', js ''[1]'')]"
    by (simp add: broken_chunks_world_def example_world_def NOTES_def k)
  have p: "parse_notes example_platform (js ''{'') = SyntaxError"
    "parse_notes example_platform (js ''[1]'') = Array [example_note]"
    "parse_totalChunks example_platform (js ''{totalChunks:2}'') = Some 2"
    by (simp_all add: example_platform_simps js_def)
  have s: "js ''{'' \<noteq> []" "js ''{'' \<noteq> js ''undefined''" "js ''{'' \<noteq> js ''null''"
    "js ''{totalChunks:2}'' \<noteq> []" "js ''[1]'' \<noteq> []"
    by (simp_all add: js_def)
  have m: "map_of (storage broken_chunks_world) NOTES = Some (js ''{'')"
    "map_of (storage broken_chunks_world) (NOTES @ ''_chunks_meta'') = Some (js ''{totalChunks:2}'')"
    "map_of (storage broken_chunks_world) (chunkKey 0) = None"
    "map_of (storage broken_chunks_world) (chunkKey 1) = Some (js ''[1]'')"
    by (simp_all add: st k NOTES_def)
  have pr: "process_notes (process_note example_platform) [example_note] = Inr [example_note]"
    by (simp add: example_platform_simps)
  have nf: "\<forall>c. \<not> faults example_platform c" by (simp add: example_platform_simps)
  show ?thesis
    using C3_missing_chunk_is_skipped
            [OF nf m(1) s(1,2,3) p(1) m(2) s(4) p(3) m(3) m(4) s(5) p(2) pr] m p
    by blast
qed

section \<open>The search\<close>

lemma startsWith_prefix: "startsWith t w \<longleftrightarrow> prefix w t"
  by (auto simp: startsWith_def prefix_def) (metis append_eq_conv_conj)

lemma contains_token_sublist: "contains_token t w \<longleftrightarrow> sublist w t"
  by (simp add: contains_token_def sublist_def)

lemma includes_contains_token: "includes t w \<longleftrightarrow> contains_token t w"
proof (induction t)
  case Nil
  show ?case by (simp add: contains_token_def)
next
  case (Cons c cs)
  show ?case
    by (simp only: includes.simps Cons.IH startsWith_prefix contains_token_sublist
        sublist_Cons_right)
qed

lemma tokens_spaces: "\<forall>x\<in>set v. is_space x \<Longrightarrow> tokens v = []"
  by (induction v) auto

lemma tokens_dropWhile_space: "tokens (dropWhile is_space s) = tokens s"
  by (induction s) auto

lemma tokens_first:
  "tokens d = (case takeWhile (\<lambda>x. \<not> is_space x) d of [] \<Rightarrow> [] | x # xs \<Rightarrow> [x # xs])
              @ tokens (dropWhile (\<lambda>x. \<not> is_space x) d)"
  by (cases d) auto

lemma filter_split_ws_from:
  "filter (\<lambda>word. word \<noteq> []) (split_ws_from cur s)
     = (case cur @ takeWhile (\<lambda>x. \<not> is_space x) s of [] \<Rightarrow> [] | x # xs \<Rightarrow> [x # xs])
       @ tokens (dropWhile (\<lambda>x. \<not> is_space x) s)"
proof (induction cur s rule: split_ws_from.induct)
  case (1 cur)
  then show ?case by (cases cur) auto
next
  case (2 cur c cs)
  show ?case
  proof (cases "is_space c")
    case True
    have "filter (\<lambda>word. word \<noteq> []) (split_ws_from [] (dropWhile is_space cs))
            = tokens (dropWhile is_space cs)"
      using 2(1) [OF True] tokens_first [of "dropWhile is_space cs"] by simp
    then show ?thesis using True by (cases cur) (auto simp: tokens_dropWhile_space)
  next
    case False
    then show ?thesis using 2(2) [OF False] by simp
  qed
qed

lemma filter_split_ws: "filter (\<lambda>word. word \<noteq> []) (split_ws s) = tokens s"
  using filter_split_ws_from [of "[]" s] tokens_first [of s] by (simp add: split_ws_def)

lemma tokens_word:
  assumes "\<not> is_space c" "\<forall>x\<in>set cs. \<not> is_space x" "\<forall>x\<in>set v. is_space x"
  shows "tokens (c # cs @ v) = [c # cs]"
proof -
  have tv: "takeWhile (\<lambda>x. \<not> is_space x) v = []" "dropWhile (\<lambda>x. \<not> is_space x) v = v"
    using assms(3) by (cases v; simp)+
  have "takeWhile (\<lambda>x. \<not> is_space x) (cs @ v) = cs"
    using assms(2) tv by (simp add: takeWhile_append2)
  moreover have "dropWhile (\<lambda>x. \<not> is_space x) (cs @ v) = v"
    using assms(2) tv by (simp add: dropWhile_append2)
  moreover have "tokens v = []" using assms(3) by (rule tokens_spaces)
  ultimately show ?thesis using assms(1) by simp
qed

lemma tokens_append_spaces:
  "\<forall>x\<in>set v. is_space x \<Longrightarrow> tokens (u @ v) = tokens u"
proof (induction u rule: tokens.induct)
  case 1
  then show ?case by (simp add: tokens_spaces)
next
  case (2 c cs)
  show ?case
  proof (cases "is_space c")
    case True
    then show ?thesis using 2 by simp
  next
    case False
    show ?thesis
    proof (cases "\<forall>x\<in>set cs. \<not> is_space x")
      case True
      have "tokens (c # cs @ v) = [c # cs]"
        by (rule tokens_word [OF False True 2(3)])
      moreover have "tokens (c # cs @ []) = [c # cs]"
        by (rule tokens_word [OF False True]) simp
      ultimately show ?thesis by simp
    next
      case ex: False
      then have "takeWhile (\<lambda>x. \<not> is_space x) (cs @ v) = takeWhile (\<lambda>x. \<not> is_space x) cs"
        "dropWhile (\<lambda>x. \<not> is_space x) (cs @ v) = dropWhile (\<lambda>x. \<not> is_space x) cs @ v"
        by (auto simp: takeWhile_append1 dropWhile_append1)
      then show ?thesis using False 2(2) [OF False 2(3)] by simp
    qed
  qed
qed

lemma tokens_trim: "tokens (trim s) = tokens s"
proof -
  let ?t = "dropWhile is_space s"
  have "?t = rev (dropWhile is_space (rev ?t)) @ rev (takeWhile is_space (rev ?t))"
    by (metis rev_append rev_rev_ident takeWhile_dropWhile_id)
  moreover have "\<forall>x\<in>set (rev (takeWhile is_space (rev ?t))). is_space x"
    by (auto dest: set_takeWhileD)
  ultimately have "tokens ?t = tokens (rev (dropWhile is_space (rev ?t)))"
    using tokens_append_spaces by metis
  then show ?thesis by (simp add: trim_def tokens_dropWhile_space)
qed

lemma queryWords_tokens: "queryWords env query = tokens (toLowerCase env query)"
  by (simp add: queryWords_def filter_split_ws tokens_trim)

lemma searchableText_spec_text: "searchableText env p b z s = spec_text env p b z s"
  by (simp add: searchableText_def spec_text_def)

lemma fold_push_filter:
  "fold (\<lambda>x results. if P x then results @ [g x] else results) xs results
     = results @ map g (filter P xs)"
  by (induction xs arbitrary: results) auto

lemma fold_push_concat:
  "(\<And>x results. F x results = results @ h x) \<Longrightarrow>
     fold F xs results = results @ concat (map h xs)"
  by (induction xs arbitrary: results) auto

text \<open>
  C8. \<open>searchShutters\<close> splits the query on white space, case-insensitively, and
  returns exactly the shutters, each with its zone, building and project, whose joined
  fields (shutter name, zone name, building name, project name, project city, shutter
  remarks) contain every token as a substring; a shutter that misses a token is not
  returned. The fields are joined with single spaces before they are lower-cased.
\<close>

theorem C8_search_all_tokens:
  "searchShutters env w query = spec_search env (projectsRef w) query"
proof -
  let ?P = "\<lambda>p b z s. \<forall>word \<in> set (tokens (toLowerCase env query)).
                        contains_token (spec_text env p b z s) word"
  let ?g = "\<lambda>p b z s. \<lparr>r_shutter = s, r_zone = z, r_building = b, r_project = p\<rparr>"
  have inner: "fold (\<lambda>shutter results.
                 (let searchableText = searchableText env p b z shutter;
                      matchesAllWords = list_all (\<lambda>word. includes searchableText word)
                                          (queryWords env query)
                  in if matchesAllWords
                     then results @ [?g p b z shutter]
                     else results)) xs results
             = results @ map (?g p b z) (filter (?P p b z) xs)" for p b z xs results
    by (simp add: Let_def list_all_iff includes_contains_token queryWords_tokens fold_push_filter
        searchableText_spec_text)
  show ?thesis
    unfolding searchShutters_def spec_search_def Let_def
    apply (subst fold_push_concat [where h = "\<lambda>p. concat (map (\<lambda>b. concat (map (\<lambda>z.
               map (?g p b z) (filter (?P p b z) (shutters z))) (functionalZones b))) (buildings p))"])
     apply (subst fold_push_concat [where h = "\<lambda>b. concat (map (\<lambda>z.
               map (?g x b z) (filter (?P x b z) (shutters z))) (functionalZones b))" for x])
      apply (subst fold_push_concat [where h = "\<lambda>z.
               map (?g x xa z) (filter (?P x xa z) (shutters z))" for x xa])
       apply (simp add: inner [unfolded Let_def])
      apply simp
     apply simp
    apply simp
    done
qed


theorem C8_search_all_tokens_witness:
  "spec_search example_platform (projectsRef example_world) (js ''north hangar'')
     = [\<lparr>r_shutter = shutterA, r_zone = example_zone, r_building = example_building,
         r_project = example_project\<rparr>]
   \<and> spec_search example_platform (projectsRef example_world) (js ''north zzz'') = []"
proof -
  have "searchShutters example_platform example_world (js ''north hangar'')
          = [\<lparr>r_shutter = shutterA, r_zone = example_zone, r_building = example_building,
              r_project = example_project\<rparr>]"
    by code_simp
  moreover have "searchShutters example_platform example_world (js ''north zzz'') = []"
    by code_simp
  ultimately show ?thesis
    using C8_search_all_tokens [of example_platform example_world "js ''north hangar''"]
      C8_search_all_tokens [of example_platform example_world "js ''north zzz''"]
    by simp
qed

section \<open>The outcome of the operations\<close>

lemma saveProjects_ok:
  "\<not> faults env (SetItem PROJECTS) \<Longrightarrow>
     saveProjects env ps w =
       (Inr (), w\<lparr>storage := AList.update PROJECTS (stringify_projects env ps) (storage w),
                  projects := ps\<rparr>)"
  by (simp add: saveProjects_def io_catch_def io_bind_def on_storage_def setItem_def setProjects_def)


lemma setFavorite_ok:
  "fst (setFavoriteProjects env favs w) = Inr ()"
  "fst (setFavoriteBuildings env favs w) = Inr ()"
  "fst (setFavoriteZones env favs w) = Inr ()"
  "fst (setFavoriteShutters env favs w) = Inr ()"
  "fst (setFavoriteNotes env favs w) = Inr ()"
  by (simp_all add: setFavoriteProjects_def setFavoriteBuildings_def setFavoriteZones_def
      setFavoriteShutters_def setFavoriteNotes_def safeStorageOperation_def io_bind_def
      io_catch_def on_storage_def setItem_def io_return_def)

lemma setFavorite_result:
  "\<exists>w'. setFavoriteProjects env favs w = (Inr (), w')"
  "\<exists>w'. setFavoriteBuildings env favs w = (Inr (), w')"
  "\<exists>w'. setFavoriteZones env favs w = (Inr (), w')"
  "\<exists>w'. setFavoriteShutters env favs w = (Inr (), w')"
  "\<exists>w'. setFavoriteNotes env favs w = (Inr (), w')"
  using setFavorite_ok [of env favs w] by (metis prod.collapse)+

lemma deleteBuildings_true:
  assumes "\<not> faults env (SetItem PROJECTS)"
  shows "fst (deleteBuildings env ids w) = Inr True"
proof -
  obtain w1 where "setFavoriteBuildings env
      (filter (\<lambda>fId. \<not> includes_id ids fId) (favoriteBuildings w)) w = (Inr (), w1)"
    using setFavorite_result(2) by blast
  then show ?thesis
    by (simp add: deleteBuildings_def Let_def io_catch_def io_bind_def
        saveProjects_ok [OF assms] io_return_def)
qed

lemma deleteZones_true:
  assumes "\<not> faults env (SetItem PROJECTS)"
  shows "fst (deleteZones env ids w) = Inr True"
proof -
  obtain w1 where "setFavoriteZones env
      (filter (\<lambda>fId. \<not> includes_id ids fId) (favoriteZones w)) w = (Inr (), w1)"
    using setFavorite_result(3) by blast
  then show ?thesis
    by (simp add: deleteZones_def Let_def io_catch_def io_bind_def
        saveProjects_ok [OF assms] io_return_def)
qed

lemma deleteShuttersBatch_true:
  assumes "\<not> faults env (SetItem PROJECTS)"
  shows "fst (deleteShuttersBatch env ids w) = Inr True"
proof -
  obtain w1 where "setFavoriteShutters env
      (filter (\<lambda>fId. \<not> includes_id ids fId) (favoriteShutters w)) w = (Inr (), w1)"
    using setFavorite_result(4) by blast
  then show ?thesis
    by (simp add: deleteShuttersBatch_def Let_def io_catch_def io_bind_def
        saveProjects_ok [OF assms] io_return_def)
qed

lemma deleteNotes_true:
  assumes "fst (saveNotes env (filter (\<lambda>n. \<not> includes_id ids (n_id n)) (notes w))
                  (snd (setFavoriteNotes env
                          (filter (\<lambda>fId. \<not> includes_id ids fId) (favoriteNotes w)) w))) = Inr ()"
  shows "fst (deleteNotes env ids w) = Inr True"
proof -
  obtain w1 where 1: "setFavoriteNotes env
      (filter (\<lambda>fId. \<not> includes_id ids fId) (favoriteNotes w)) w = (Inr (), w1)"
    using setFavorite_result(5) by blast
  obtain w2 where 2: "saveNotes env (filter (\<lambda>n. \<not> includes_id ids (n_id n)) (notes w)) w1
                        = (Inr (), w2)"
    using assms by (simp add: 1) (metis prod.collapse)
  show ?thesis
    by (simp add: deleteNotes_def Let_def io_catch_def removeImages_def io_return_def
        io_bind_def 1 2)
qed

lemma findIndex_None: "findIndex P xs = None \<longleftrightarrow> (\<forall>x\<in>set xs. \<not> P x)"
  by (induction xs) auto

lemma deleteBuilding_loop_None:
  "(\<forall>p\<in>set ps. \<forall>b\<in>set (buildings p). b_id b \<noteq> x) \<Longrightarrow> deleteBuilding_loop t x ps = None"
  by (induction ps) (auto simp: findIndex_None split: option.splits)

lemma deleteBuilding_not_found:
  "(\<forall>p\<in>set (projectsRef w). \<forall>b\<in>set (buildings p). b_id b \<noteq> x) \<Longrightarrow>
     deleteBuilding env x w = (Inr False, w)"
  by (simp add: deleteBuilding_def deleteBuilding_loop_None)

lemma deleteNote_not_found:
  "(\<forall>n\<in>set (notes w). n_id n \<noteq> x) \<Longrightarrow> deleteNote env x w = (Inr False, w)"
proof -
  assume "\<forall>n\<in>set (notes w). n_id n \<noteq> x"
  then have "findIndex (\<lambda>n. n_id n = x) (notes w) = None" by (simp add: findIndex_None)
  then show ?thesis by (simp add: deleteNote_def io_catch_def io_return_def)
qed



























text \<open>
  C10. A batch deletion (\<open>deleteBuildings\<close>, \<open>deleteZones\<close>, \<open>deleteShuttersBatch\<close>,
  \<open>deleteNotes\<close>) returns \<open>true\<close> whenever its persistence write succeeds, whatever the ids,
  also when none of them is the id of an entity; the single-entity deletions return
  \<open>false\<close> for an id that is not found.
\<close>

theorem C10_batch_delete_returns_true:
  assumes "\<not> faults env (SetItem PROJECTS)"
    and "fst (saveNotes env (filter (\<lambda>n. \<not> includes_id ids (n_id n)) (notes w))
                (snd (setFavoriteNotes env
                        (filter (\<lambda>fId. \<not> includes_id ids fId) (favoriteNotes w)) w))) = Inr ()"
  shows "fst (deleteBuildings env ids w) = Inr True
       \<and> fst (deleteZones env ids w) = Inr True
       \<and> fst (deleteShuttersBatch env ids w) = Inr True
       \<and> fst (deleteNotes env ids w) = Inr True
       \<and> ((\<forall>p\<in>set (projectsRef w). \<forall>b\<in>set (buildings p). b_id b \<noteq> x)
            \<longrightarrow> fst (deleteBuilding env x w) = Inr False)
       \<and> ((\<forall>n\<in>set (notes w). n_id n \<noteq> x) \<longrightarrow> fst (deleteNote env x w) = Inr False)"
  using deleteBuildings_true [OF assms(1)] deleteZones_true [OF assms(1)]
    deleteShuttersBatch_true [OF assms(1)] deleteNotes_true [OF assms(2)]
  by (simp add: deleteBuilding_not_found deleteNote_not_found)

lemma example_platform_more:
  "stringify_strings example_platform = (\<lambda>ids. js ''['' @ join (js '','') ids @ js '']'')"
  "stringify_meta example_platform = (\<lambda>n t. js ''{totalChunks:'' @ js (show_nat n) @ js ''}'')"
  "stringify_history example_platform = (\<lambda>h. js ''['' @ join (js '','') (map q_id h) @ js '']'')"
  by (simp_all add: example_platform_def)

lemma ex_save:
  "fst (saveNotes example_platform [example_note]
          (snd (setFavoriteNotes example_platform [] example_world))) = Inr ()"
  by (simp add: saveNotes_def sanitizeNotesImages_def example_platform_def
      setFavoriteNotes_def safeStorageOperation_def io_bind_def io_catch_def on_storage_def
      setItem_def removeItem_def io_return_def cleanupOldChunks_def getAllKeys_def Let_def
      setNotes_def example_world_def example_note_def js_def startsWith_def chunkPrefix_def
      NOTES_def NOTES_TMP_def FAVORITE_NOTES_def)

theorem C10_batch_delete_returns_true_witness:
  "\<not> faults example_platform (SetItem PROJECTS)
   \<and> fst (deleteBuildings example_platform [js ''zz''] example_world) = Inr True
   \<and> fst (deleteZones example_platform [js ''zz''] example_world) = Inr True
   \<and> fst (deleteShuttersBatch example_platform [js ''zz''] example_world) = Inr True
   \<and> fst (deleteNotes example_platform [js ''zz''] example_world) = Inr True
   \<and> fst (deleteBuilding example_platform (js ''zz'') example_world) = Inr False
   \<and> fst (deleteNote example_platform (js ''zz'') example_world) = Inr False"
proof -
  have 1: "\<not> faults example_platform (SetItem PROJECTS)"
    by (simp add: example_platform_def)
  have b: "\<forall>p\<in>set (projectsRef example_world). \<forall>b\<in>set (buildings p). b_id b \<noteq> js ''zz''"
    by (simp add: example_world_def example_project_def example_building_def js_def)
  have n: "\<forall>n\<in>set (notes example_world). n_id n \<noteq> js ''zz''"
    by (simp add: example_world_def example_note_def js_def)
  have f: "filter (\<lambda>n. \<not> includes_id [js ''zz''] (n_id n)) (notes example_world) = [example_note]"
    "filter (\<lambda>fId. \<not> includes_id [js ''zz''] fId) (favoriteNotes example_world) = []"
    by (simp_all add: example_world_def example_note_def includes_id_def js_def)
  have 2: "fst (saveNotes example_platform
                  (filter (\<lambda>n. \<not> includes_id [js ''zz''] (n_id n)) (notes example_world))
                  (snd (setFavoriteNotes example_platform
                          (filter (\<lambda>fId. \<not> includes_id [js ''zz''] fId)
                             (favoriteNotes example_world)) example_world))) = Inr ()"
    unfolding f by (rule ex_save)
  show ?thesis
    using C10_batch_delete_returns_true [OF 1 2, of "js ''zz''"] 1 b n by blast
qed

section \<open>Write ordering\<close>

lemma run_two_saves:
  assumes "\<not> faults env (SetItem PROJECTS)"
  shows "run_queue [saveProjects env psA, saveProjects env psB] w
         = w\<lparr>storage := AList.update PROJECTS (stringify_projects env psB)
                          (AList.update PROJECTS (stringify_projects env psA) (storage w)),
              projects := psB, projectsRef := psB\<rparr>"
  by (simp add: saveProjects_ok [OF assms] rerender_def)

text \<open>
  C4. Two mutations submitted back to back through the write queue: the second sees what
  the first did, both are persisted, and the final persisted state has both changes.
  \<open>updateShutter\<close> builds its snapshot from \<open>projectsRef.current\<close> before it hands
  the save to \<open>enqueue\<close>, so two calls made before the queue runs both start from the same
  tree; the queue then writes the two snapshots in order, and what stays, in the store and
  in the state, is the second snapshot, which does not have the first change.
\<close>

theorem C4_second_update_overwrites_first:
  assumes "\<not> faults env (SetItem PROJECTS)"
    and "updateShutter_projects (now env) idA uA (projectsRef w) = Some (psA, sA)"
    and "updateShutter_projects (now env) idB uB (projectsRef w) = Some (psB, sB)"
  shows "projects (run_queue (updateShutter_call env idB uB w
                               (updateShutter_call env idA uA w [])) w) = psB
       \<and> map_of (storage (run_queue (updateShutter_call env idB uB w
                                       (updateShutter_call env idA uA w [])) w)) PROJECTS
           = Some (stringify_projects env psB)"
  using assms(2,3)
  by (simp add: updateShutter_call_def enqueue_def saveProjects_ok [OF assms(1)] rerender_def
      update_conv')

lemma ex_updA:
  "updateShutter_projects (now example_platform) (js ''A'') (rename_to ''Porte'')
     (projectsRef example_world)
   = Some ([example_project\<lparr>buildings := [example_building\<lparr>functionalZones :=
              [example_zone\<lparr>shutters := [shutterA\<lparr>s_name := js ''Porte'', s_updatedAt := 1000\<rparr>,
                                          shutterB]\<rparr>]\<rparr>], p_updatedAt := 1000\<rparr>],
           shutterA\<lparr>s_name := js ''Porte'', s_updatedAt := 1000\<rparr>)"
  by (simp add: example_world_def example_project_def example_building_def example_zone_def
      shutterA_def shutterB_def rename_to_def apply_shutter_updates_def example_platform_def js_def
      Let_def)

lemma ex_updB:
  "updateShutter_projects (now example_platform) (js ''B'') (rename_to ''Quai'')
     (projectsRef example_world)
   = Some ([example_project\<lparr>buildings := [example_building\<lparr>functionalZones :=
              [example_zone\<lparr>shutters := [shutterA,
                                          shutterB\<lparr>s_name := js ''Quai'', s_updatedAt := 1000\<rparr>]\<rparr>]\<rparr>],
                              p_updatedAt := 1000\<rparr>],
           shutterB\<lparr>s_name := js ''Quai'', s_updatedAt := 1000\<rparr>)"
  by (simp add: example_world_def example_project_def example_building_def example_zone_def
      shutterA_def shutterB_def rename_to_def apply_shutter_updates_def example_platform_def js_def
      Let_def)

theorem C4_second_update_overwrites_first_witness:
  "\<not> faults example_platform (SetItem PROJECTS)
   \<and> map_of (storage (run_queue
         (updateShutter_call example_platform (js ''B'') (rename_to ''Quai'') example_world
           (updateShutter_call example_platform (js ''A'') (rename_to ''Porte'') example_world []))
         example_world)) PROJECTS
       = Some (js ''Hangar Nord;Quai;'')"
proof -
  have 1: "\<not> faults example_platform (SetItem PROJECTS)"
    by (simp add: example_platform_def)
  have s: "stringify_projects example_platform
             [example_project\<lparr>buildings := [example_building\<lparr>functionalZones :=
              [example_zone\<lparr>shutters := [shutterA,
                                          shutterB\<lparr>s_name := js ''Quai'', s_updatedAt := 1000\<rparr>]\<rparr>]\<rparr>],
                              p_updatedAt := 1000\<rparr>]
           = js ''Hangar Nord;Quai;''"
    by (simp add: example_platform_def example_stringify_projects_def shutterA_def shutterB_def
        js_def)
  show ?thesis
    using C4_second_update_overwrites_first [OF 1 ex_updA ex_updB] 1 s by simp
qed


section \<open>The quick-calc history\<close>

lemma addQuickCalcHistory_alt_capped:
  "length (quickCalcHistory (snd (addQuickCalcHistory_alt env item w))) \<le> 5"
  "quickCalcHistory (snd (addQuickCalcHistory_alt env item w))
     = take 5 (quickCalcData.extend item \<lparr>q_id = generateUniqueId env, q_timestamp = now env\<rparr>
               # quickCalcHistory w)"
  by (simp_all add: addQuickCalcHistory_alt_def Let_def io_catch_def on_storage_def setItem_def
      io_throw_def)

text \<open>
  C7. After every \<open>addQuickCalcHistory\<close> the stored history holds at most a fixed number
  of items, the most recent ones. In the provider with the write queue the new item is put
  in front of the whole history and the result is stored and kept as it is, one item
  longer each time; the other provider of the repository keeps five.
\<close>

theorem C7_history_grows_without_cap:
  "quickCalcHistory (snd (addQuickCalcHistory env item w))
     = quickCalcData.extend item \<lparr>q_id = generateUniqueId env, q_timestamp = now env\<rparr>
       # quickCalcHistory w
   \<and> (\<not> faults env (SetItem QUICK_CALC_HISTORY) \<longrightarrow>
        map_of (storage (snd (addQuickCalcHistory env item w))) QUICK_CALC_HISTORY
          = Some (stringify_history env
               (quickCalcData.extend item \<lparr>q_id = generateUniqueId env, q_timestamp = now env\<rparr>
                # quickCalcHistory w)))"
  by (simp add: addQuickCalcHistory_def Let_def io_bind_def safeStorageOperation_def io_catch_def
      on_storage_def setItem_def io_return_def update_conv')

theorem C7_history_grows_without_cap_witness:
  "\<not> faults example_platform (SetItem QUICK_CALC_HISTORY)
   \<and> length (quickCalcHistory full_history_world) = 5
   \<and> length (quickCalcHistory (snd (addQuickCalcHistory example_platform example_item
                 full_history_world))) = 6
   \<and> map_of (storage (snd (addQuickCalcHistory example_platform example_item
                 full_history_world))) QUICK_CALC_HISTORY
       = Some (js ''[1000_abc,h5,h4,h3,h2,h1]'')"
proof -
  have 1: "\<not> faults example_platform (SetItem QUICK_CALC_HISTORY)"
    by (simp add: example_platform_def)
  have 2: "length (quickCalcHistory full_history_world) = 5"
    by (simp add: full_history_world_def)
  have 3: "stringify_history example_platform
             (quickCalcData.extend example_item
                \<lparr>q_id = generateUniqueId example_platform, q_timestamp = now example_platform\<rparr>
              # quickCalcHistory full_history_world)
           = js ''[1000_abc,h5,h4,h3,h2,h1]''"
    by (simp add: example_platform_def full_history_world_def history_entry_def
        quickCalcData.defs example_item_def js_def)
  show ?thesis
    using C7_history_grows_without_cap [of example_platform example_item full_history_world]
      1 2 3 by simp
qed


end
